theory Spec2Isabelle
  imports Main "HOL-Library.Word"
begin

section \<open>Values exchanged with the collaborators\<close>

text \<open>
  The read-through segment of \<^verbatim>\<open>src/dbnode/storage/index/read_through_segment.go\<close>
  sits between the query layer and three collaborators it only knows through interfaces:
  the underlying immutable segment, the underlying segment reader and the postings list
  caches. Go byte slices and Go strings are both byte sequences; \<open>string(b)\<close> keeps the
  bytes.
\<close>

type_synonym bytes = string

definition go_string :: "bytes \<Rightarrow> string" where
  "go_string b = b"

text \<open>The segment identifier is an opaque 128-bit value (\<^verbatim>\<open>uuid.UUID\<close>).\<close>

type_synonym UUID = "128 word"

text \<open>
  The errors of the file are its two package-level values; every other error comes from a
  collaborator and is carried by its message.
\<close>

datatype error =
    errCantGetReaderFromClosedSegment
  | errCantCloseClosedSegment
  | errUnderlying string

text \<open>
  A \<^verbatim>\<open>postings.List\<close> is an interface value: either nil or a handle on a list of
  document identifiers, which exposes an estimate of the memory it holds.
\<close>

datatype postings_List = nil_List | List "nat list" nat

fun memory_bytes :: "postings_List \<Rightarrow> nat" where
  "memory_bytes nil_List = 0"
| "memory_bytes (List ids n) = n"

text \<open>
  A Go function returning \<^verbatim>\<open>(T, error)\<close> returns both components; the error is nil
  (\<open>None\<close>) on success.
\<close>

type_synonym 'a result = "'a \<times> error option"

section \<open>The postings list cache\<close>

text \<open>
  Modelled from the spec: the type \<^verbatim>\<open>PostingsListCache\<close> and its methods
  (\<^verbatim>\<open>GetTerm\<close>, \<^verbatim>\<open>PutTerm\<close>, \<^verbatim>\<open>GetRegexp\<close>, \<^verbatim>\<open>PutRegexp\<close>, \<^verbatim>\<open>GetField\<close>,
  \<^verbatim>\<open>PutField\<close>, \<^verbatim>\<open>GetSearch\<close>, \<^verbatim>\<open>PutSearch\<close>, \<^verbatim>\<open>PurgeSegment\<close>,
  \<^verbatim>\<open>CachedPatterns\<close>) are used by the read-through segment but declared in a file that
  is not part of the sources at hand. The spec describes one LRU per pattern kind, each
  with a byte budget and an entry budget; a lookup promotes the entry to most recently
  used, an insertion replaces an entry of the same key and then evicts least recently used
  entries until the budgets hold, and a purge removes every entry tagged with a segment
  identifier. An LRU is kept as an association list, most recently used first.

  The shards of an LRU and the index from segments back to their entries are the spec's
  means to make lookups and purges fast; they do not change what a lookup, an insertion or
  a purge returns and are left out. The flags that enable a kind are those of the
  segment's options, which the reader checks before it calls the cache.

  The spec also has a late insertion dropped when its segment is marked as purged, so
  that an entry of a purged segment cannot come back and no lookup hits after the close of
  a segment. The cache therefore keeps the identifiers it has purged: a purge adds the
  identifier, and an insertion under a marked identifier is accepted and does nothing.
\<close>

datatype PatternType =
    PatternTypeRegexp
  | PatternTypeTerm
  | PatternTypeField
  | PatternTypeSearch

datatype key = Key UUID string string

fun key_segment :: "key \<Rightarrow> UUID" where
  "key_segment (Key u f p) = u"

type_synonym lru_items = "(key \<times> postings_List) list"

record LRU =
  max_bytes :: nat
  max_entries :: nat
  items :: lru_items

definition total_bytes :: "lru_items \<Rightarrow> nat" where
  "total_bytes xs = sum_list (map (\<lambda>e. memory_bytes (snd e)) xs)"

definition over_budget :: "nat \<Rightarrow> nat \<Rightarrow> lru_items \<Rightarrow> bool" where
  "over_budget mb me xs \<longleftrightarrow> mb < total_bytes xs \<or> me < length xs"

text \<open>Eviction drops the least recently used entry while a budget is exceeded.\<close>

function lru_evict :: "nat \<Rightarrow> nat \<Rightarrow> lru_items \<Rightarrow> lru_items" where
  "lru_evict mb me xs =
     (if xs \<noteq> [] \<and> over_budget mb me xs then lru_evict mb me (butlast xs) else xs)"
  by pat_completeness auto
termination
  by (relation "measure (\<lambda>(mb, me, xs). length xs)") auto

declare lru_evict.simps [simp del]

definition lru_peek :: "LRU \<Rightarrow> key \<Rightarrow> postings_List option" where
  "lru_peek l k = map_of (items l) k"

definition lru_remove_key :: "key \<Rightarrow> lru_items \<Rightarrow> lru_items" where
  "lru_remove_key k xs = filter (\<lambda>e. fst e \<noteq> k) xs"

definition lru_get :: "LRU \<Rightarrow> key \<Rightarrow> postings_List option \<times> LRU" where
  "lru_get l k =
     (case map_of (items l) k of
        None \<Rightarrow> (None, l)
      | Some v \<Rightarrow> (Some v, l\<lparr>items := (k, v) # lru_remove_key k (items l)\<rparr>))"

definition lru_put :: "LRU \<Rightarrow> key \<Rightarrow> postings_List \<Rightarrow> LRU" where
  "lru_put l k v =
     l\<lparr>items := lru_evict (max_bytes l) (max_entries l) ((k, v) # lru_remove_key k (items l))\<rparr>"

definition lru_purge :: "LRU \<Rightarrow> UUID \<Rightarrow> nat \<times> LRU" where
  "lru_purge l u =
     (length (filter (\<lambda>e. key_segment (fst e) = u) (items l)),
      l\<lparr>items := filter (\<lambda>e. key_segment (fst e) \<noteq> u) (items l)\<rparr>)"

record PostingsListCache =
  lrus :: "PatternType \<Rightarrow> LRU"
  purged_segments :: "UUID list"

definition cache_peek :: "PostingsListCache \<Rightarrow> PatternType \<Rightarrow> key \<Rightarrow> postings_List option" where
  "cache_peek c t k = lru_peek (lrus c t) k"

definition cache_get ::
  "PostingsListCache \<Rightarrow> PatternType \<Rightarrow> key \<Rightarrow> postings_List option \<times> PostingsListCache" where
  "cache_get c t k =
     (case lru_get (lrus c t) k of (r, l') \<Rightarrow> (r, c\<lparr>lrus := (lrus c)(t := l')\<rparr>))"

definition cache_put ::
  "PostingsListCache \<Rightarrow> PatternType \<Rightarrow> key \<Rightarrow> postings_List \<Rightarrow> PostingsListCache" where
  "cache_put c t k v =
     (if key_segment k \<in> set (purged_segments c) then c
      else c\<lparr>lrus := (lrus c)(t := lru_put (lrus c t) k v)\<rparr>)"

text \<open>
  The keys of the four kinds: field and pattern for terms and regular expressions, the
  field alone for field presence (the pattern is empty), the query string for searches.
\<close>

definition term_key :: "UUID \<Rightarrow> string \<Rightarrow> string \<Rightarrow> key" where
  "term_key u f p = Key u f p"

definition regexp_key :: "UUID \<Rightarrow> string \<Rightarrow> string \<Rightarrow> key" where
  "regexp_key u f p = Key u f p"

definition field_key :: "UUID \<Rightarrow> string \<Rightarrow> key" where
  "field_key u f = Key u f []"

definition search_key :: "UUID \<Rightarrow> string \<Rightarrow> key" where
  "search_key u q = Key u [] q"

text \<open>
  Purging a segment purges it from each of the four LRUs, counts what it removed and
  marks the segment as purged.
\<close>

definition cache_purge_segment :: "PostingsListCache \<Rightarrow> UUID \<Rightarrow> nat \<times> PostingsListCache" where
  "cache_purge_segment c u =
     (sum_list (map (\<lambda>t. fst (lru_purge (lrus c t) u))
        [PatternTypeRegexp, PatternTypeTerm, PatternTypeField, PatternTypeSearch]),
      c\<lparr>lrus := (\<lambda>t. snd (lru_purge (lrus c t) u)),
        purged_segments := List.insert u (purged_segments c)\<rparr>)"

text \<open>
  Iterating the cached patterns of a segment visits, without promoting them, the entries
  of the requested kind that carry the segment's identifier.
\<close>

record CachedPattern =
  cp_type :: PatternType
  cp_key :: key
  cp_postings :: postings_List

definition cache_patterns :: "PostingsListCache \<Rightarrow> UUID \<Rightarrow> PatternType \<Rightarrow> CachedPattern list" where
  "cache_patterns c u t =
     map (\<lambda>e. \<lparr>cp_type = t, cp_key = fst e, cp_postings = snd e\<rparr>)
       (filter (\<lambda>e. key_segment (fst e) = u) (items (lrus c t)))"

section \<open>The underlying segment and its reader\<close>

text \<open>
  Documents as the tests of the repository build them: an identifier and a list of
  fields, each a name and a value.
\<close>

record Metadata =
  doc_ID :: bytes
  doc_Fields :: "(bytes \<times> bytes) list"

datatype Document = DocumentFromMetadata Metadata | DocumentFromEncoded bytes

text \<open>Iterators are known by the sequence of items they yield.\<close>

type_synonym IDDocIterator = "(nat \<times> Metadata) list"
type_synonym MetadataIterator = "Metadata list"
type_synonym DocIterator = "Document list"
type_synonym FieldsIterator = "bytes list"
type_synonym FieldsPostingsListIterator = "(bytes \<times> postings_List) list"
type_synonym TermsIterator = "(bytes \<times> postings_List) list"
type_synonym FieldsIterable = "FieldsIterator result"
type_synonym TermsIterable = "bytes \<Rightarrow> TermsIterator result"

text \<open>
  Modelled from the spec: the declaration of \<^verbatim>\<open>index.CompiledRegex\<close> is not part of
  the sources at hand. A compiled regular expression carries its FST syntax, an object
  whose \<^verbatim>\<open>String()\<close> is the canonical pattern string, next to the compiled automata the
  underlying reader runs (kept opaque).
\<close>

datatype syntax_Regexp = syntax_Regexp string

fun Regexp_String :: "syntax_Regexp \<Rightarrow> string" where
  "Regexp_String (syntax_Regexp s) = s"

record CompiledRegex =
  FSTSyntax :: syntax_Regexp
  FST :: nat

text \<open>
  Modelled from the spec: a \<^verbatim>\<open>search.Query\<close> is an interface whose declaration is not
  part of the sources at hand; the file only calls its \<^verbatim>\<open>String()\<close>, the canonical
  string form. The first component stands for the rest of the query.
\<close>

datatype Query = Query nat string

fun Query_String :: "Query \<Rightarrow> string" where
  "Query_String (Query n s) = s"

text \<open>
  The underlying reader of an immutable segment answers each query from the sealed
  segment: an interface value is the table of its methods' answers.
\<close>

record segment_Reader =
  MatchRegexp_u :: "bytes \<Rightarrow> CompiledRegex \<Rightarrow> postings_List result"
  MatchTerm_u :: "bytes \<Rightarrow> bytes \<Rightarrow> postings_List result"
  MatchField_u :: "bytes \<Rightarrow> postings_List result"
  MatchAll_u :: "postings_List result"
  AllDocs_u :: "IDDocIterator result"
  Metadata_u :: "nat \<Rightarrow> Metadata result"
  MetadataIterator_u :: "postings_List \<Rightarrow> MetadataIterator result"
  Doc_u :: "nat \<Rightarrow> Document result"
  Docs_u :: "postings_List \<Rightarrow> DocIterator result"
  Fields_u :: "FieldsIterator result"
  FieldsPostingsList_u :: "FieldsPostingsListIterator result"
  ContainsField_u :: "bytes \<Rightarrow> bool result"
  Terms_u :: "bytes \<Rightarrow> TermsIterator result"
  Close_u :: "error option"

record ImmutableSegment =
  Reader_seg :: "segment_Reader result"
  Close_seg :: "error option"
  FieldsIterable_seg :: FieldsIterable
  TermsIterable_seg :: TermsIterable
  ContainsID_seg :: "bytes \<Rightarrow> bool result"
  ContainsField_seg :: "bytes \<Rightarrow> bool result"
  FreeMmap_seg :: "error option"
  Size_seg :: "64 word"

section \<open>The world: shared caches and the trace of effects\<close>

text \<open>
  The caches are shared objects reached through pointers: several segments, and both
  handles of one segment, may name the same cache. The store maps the address of a cache
  to its state; a nil handle is \<open>None\<close>. The trace records, in program order, the write
  of the closed flag and every call on a collaborator.
\<close>

type_synonym addr = nat

datatype reader_call =
    R_MatchRegexp bytes CompiledRegex
  | R_MatchTerm bytes bytes
  | R_MatchField bytes
  | R_MatchAll
  | R_AllDocs
  | R_Metadata nat
  | R_MetadataIterator postings_List
  | R_Doc nat
  | R_Docs postings_List
  | R_Fields
  | R_FieldsPostingsList
  | R_ContainsField bytes
  | R_Terms bytes
  | R_Close

datatype segment_call =
    S_Reader
  | S_Close
  | S_FieldsIterable
  | S_TermsIterable
  | S_ContainsID bytes
  | S_ContainsField bytes
  | S_FreeMmap
  | S_Size

datatype effect =
    Set_closed
  | Cache_Get addr PatternType key
  | Cache_Put addr PatternType key postings_List
  | Cache_PurgeSegment addr UUID
  | Cache_CachedPatterns addr UUID "PatternType option"
  | Segment_Call segment_call
  | Reader_Call reader_call

record world =
  heap :: "addr \<Rightarrow> PostingsListCache"
  trace :: "effect list"

definition emit :: "effect \<Rightarrow> world \<Rightarrow> world" where
  "emit e w = w\<lparr>trace := trace w @ [e]\<rparr>"

text \<open>What the cache at an address holds for a key, without touching it.\<close>

definition peek :: "world \<Rightarrow> addr \<Rightarrow> PatternType \<Rightarrow> key \<Rightarrow> postings_List option" where
  "peek w a t k = cache_peek (heap w a) t k"

subsection \<open>The methods of a cache, called through its address\<close>

definition heap_get :: "addr \<Rightarrow> PatternType \<Rightarrow> key \<Rightarrow> world \<Rightarrow> postings_List option \<times> world" where
  "heap_get a t k w =
     (case cache_get (heap w a) t k of
        (r, c') \<Rightarrow> (r, emit (Cache_Get a t k) (w\<lparr>heap := (heap w)(a := c')\<rparr>)))"

definition heap_put :: "addr \<Rightarrow> PatternType \<Rightarrow> key \<Rightarrow> postings_List \<Rightarrow> world \<Rightarrow> world" where
  "heap_put a t k v w =
     emit (Cache_Put a t k v) (w\<lparr>heap := (heap w)(a := cache_put (heap w a) t k v)\<rparr>)"

definition GetRegexp :: "addr \<Rightarrow> UUID \<Rightarrow> string \<Rightarrow> string \<Rightarrow> world \<Rightarrow> postings_List option \<times> world" where
  "GetRegexp a u f p w = heap_get a PatternTypeRegexp (regexp_key u f p) w"

definition PutRegexp :: "addr \<Rightarrow> UUID \<Rightarrow> string \<Rightarrow> string \<Rightarrow> postings_List \<Rightarrow> world \<Rightarrow> world" where
  "PutRegexp a u f p pl w = heap_put a PatternTypeRegexp (regexp_key u f p) pl w"

definition GetTerm :: "addr \<Rightarrow> UUID \<Rightarrow> string \<Rightarrow> string \<Rightarrow> world \<Rightarrow> postings_List option \<times> world" where
  "GetTerm a u f p w = heap_get a PatternTypeTerm (term_key u f p) w"

definition PutTerm :: "addr \<Rightarrow> UUID \<Rightarrow> string \<Rightarrow> string \<Rightarrow> postings_List \<Rightarrow> world \<Rightarrow> world" where
  "PutTerm a u f p pl w = heap_put a PatternTypeTerm (term_key u f p) pl w"

definition GetField :: "addr \<Rightarrow> UUID \<Rightarrow> string \<Rightarrow> world \<Rightarrow> postings_List option \<times> world" where
  "GetField a u f w = heap_get a PatternTypeField (field_key u f) w"

definition PutField :: "addr \<Rightarrow> UUID \<Rightarrow> string \<Rightarrow> postings_List \<Rightarrow> world \<Rightarrow> world" where
  "PutField a u f pl w = heap_put a PatternTypeField (field_key u f) pl w"

definition GetSearch :: "addr \<Rightarrow> UUID \<Rightarrow> string \<Rightarrow> world \<Rightarrow> postings_List option \<times> world" where
  "GetSearch a u q w = heap_get a PatternTypeSearch (search_key u q) w"

text \<open>The query itself is handed over with its string; the entry is stored under the string.\<close>

definition PutSearch :: "addr \<Rightarrow> UUID \<Rightarrow> string \<Rightarrow> Query \<Rightarrow> postings_List \<Rightarrow> world \<Rightarrow> world" where
  "PutSearch a u q query pl w = heap_put a PatternTypeSearch (search_key u q) pl w"

definition PurgeSegment :: "addr \<Rightarrow> UUID \<Rightarrow> world \<Rightarrow> nat \<times> world" where
  "PurgeSegment a u w =
     (case cache_purge_segment (heap w a) u of
        (n, c') \<Rightarrow> (n, emit (Cache_PurgeSegment a u) (w\<lparr>heap := (heap w)(a := c')\<rparr>)))"

record CachedPatternsQuery =
  PatternType :: "PatternType option"

record CachedPatternsResult =
  visited :: "CachedPattern list"

type_synonym CachedPatternForEachFn = "CachedPattern \<Rightarrow> world \<Rightarrow> world"

definition CachedPatterns ::
  "addr \<Rightarrow> UUID \<Rightarrow> CachedPatternsQuery \<Rightarrow> CachedPatternForEachFn \<Rightarrow> world
     \<Rightarrow> CachedPatternsResult \<times> world" where
  "CachedPatterns a u q fn w =
     (let ps = (case PatternType q of
                  Some t \<Rightarrow> cache_patterns (heap w a) u t
                | None \<Rightarrow> concat (map (cache_patterns (heap w a) u)
                     [PatternTypeRegexp, PatternTypeTerm, PatternTypeField, PatternTypeSearch]))
      in (\<lparr>visited = ps\<rparr>, fold fn ps (emit (Cache_CachedPatterns a u (PatternType q)) w)))"

section \<open>The read-through segment\<close>

record ReadThroughSegmentCaches =
  SegmentPostingsListCache :: "addr option"
  SearchPostingsListCache :: "addr option"

record ReadThroughSegmentOptions =
  CacheRegexp :: bool
  CacheTerms :: bool
  CacheSearches :: bool

record ReadThroughSegment =
  segment :: ImmutableSegment
  uuid :: UUID
  caches :: ReadThroughSegmentCaches
  opts :: ReadThroughSegmentOptions
  closed :: bool

text \<open>
  The reader keeps the underlying reader, the options, the identifier and the cache
  handles of the segment that made it. (The Go struct also keeps a pointer to that
  segment, which no method of the reader follows.)
\<close>

record readThroughSegmentReader =
  reader :: segment_Reader
  reader_opts :: ReadThroughSegmentOptions
  reader_uuid :: UUID
  reader_caches :: ReadThroughSegmentCaches

text \<open>The fresh identifier \<^verbatim>\<open>uuid.NewUUID()\<close> is passed in.\<close>

definition NewReadThroughSegment ::
  "ImmutableSegment \<Rightarrow> ReadThroughSegmentCaches \<Rightarrow> ReadThroughSegmentOptions \<Rightarrow> UUID
     \<Rightarrow> ReadThroughSegment" where
  "NewReadThroughSegment seg cs os new_uuid =
     \<lparr>segment = seg, uuid = new_uuid, caches = cs, opts = os, closed = False\<rparr>"

definition newReadThroughSegmentReader ::
  "segment_Reader \<Rightarrow> UUID \<Rightarrow> ReadThroughSegmentCaches \<Rightarrow> ReadThroughSegmentOptions
     \<Rightarrow> readThroughSegmentReader" where
  "newReadThroughSegmentReader rd u cs os =
     \<lparr>reader = rd, reader_opts = os, reader_uuid = u, reader_caches = cs\<rparr>"

definition Reader :: "ReadThroughSegment \<Rightarrow> world \<Rightarrow> readThroughSegmentReader option result \<times> world" where
  "Reader r w =
     (if closed r then ((None, Some errCantGetReaderFromClosedSegment), w)
      else
        (case Reader_seg (segment r) of
           (rd, Some err) \<Rightarrow> ((None, Some err), emit (Segment_Call S_Reader) w)
         | (rd, None) \<Rightarrow>
             ((Some (newReadThroughSegmentReader rd (uuid r) (caches r) (opts r)), None),
              emit (Segment_Call S_Reader) w)))"

text \<open>The two purges of \<^verbatim>\<open>Close\<close>, each guarded by the nil check of its handle.\<close>

definition purge_if_present :: "addr option \<Rightarrow> UUID \<Rightarrow> world \<Rightarrow> world" where
  "purge_if_present h u w = (case h of None \<Rightarrow> w | Some cache \<Rightarrow> snd (PurgeSegment cache u w))"

definition Close :: "ReadThroughSegment \<Rightarrow> world \<Rightarrow> error option \<times> ReadThroughSegment \<times> world" where
  "Close r w =
     (if closed r then (Some errCantCloseClosedSegment, r, w)
      else
        (let r1 = r\<lparr>closed := True\<rparr>;
             w0 = emit Set_closed w;
             w1 = purge_if_present (SegmentPostingsListCache (caches r1)) (uuid r1) w0;
             w2 = purge_if_present (SearchPostingsListCache (caches r1)) (uuid r1) w1
         in (Close_seg (segment r1), r1, emit (Segment_Call S_Close) w2)))"

definition FieldsIterable :: "ReadThroughSegment \<Rightarrow> world \<Rightarrow> FieldsIterable \<times> world" where
  "FieldsIterable r w = (FieldsIterable_seg (segment r), emit (Segment_Call S_FieldsIterable) w)"

definition TermsIterable :: "ReadThroughSegment \<Rightarrow> world \<Rightarrow> TermsIterable \<times> world" where
  "TermsIterable r w = (TermsIterable_seg (segment r), emit (Segment_Call S_TermsIterable) w)"

definition ContainsID :: "ReadThroughSegment \<Rightarrow> bytes \<Rightarrow> world \<Rightarrow> bool result \<times> world" where
  "ContainsID r docid w = (ContainsID_seg (segment r) docid, emit (Segment_Call (S_ContainsID docid)) w)"

definition Segment_ContainsField :: "ReadThroughSegment \<Rightarrow> bytes \<Rightarrow> world \<Rightarrow> bool result \<times> world" where
  "Segment_ContainsField r field w =
     (ContainsField_seg (segment r) field, emit (Segment_Call (S_ContainsField field)) w)"

definition FreeMmap :: "ReadThroughSegment \<Rightarrow> world \<Rightarrow> error option \<times> world" where
  "FreeMmap r w = (FreeMmap_seg (segment r), emit (Segment_Call S_FreeMmap) w)"

definition Size :: "ReadThroughSegment \<Rightarrow> world \<Rightarrow> 64 word \<times> world" where
  "Size r w = (Size_seg (segment r), emit (Segment_Call S_Size) w)"

definition PutCachedSearchPattern ::
  "ReadThroughSegment \<Rightarrow> string \<Rightarrow> Query \<Rightarrow> postings_List \<Rightarrow> world \<Rightarrow> world" where
  "PutCachedSearchPattern r queryStr query pl w =
     (if closed r then w
      else
        (case SearchPostingsListCache (caches r) of
           None \<Rightarrow> w
         | Some cache \<Rightarrow>
             if \<not> CacheSearches (opts r) then w
             else PutSearch cache (uuid r) queryStr query pl w))"

record CachedSearchPatternsResult =
  CacheSearchesDisabled :: bool
  CachedPatternsResult :: CachedPatternsResult

definition CachedSearchPatterns ::
  "ReadThroughSegment \<Rightarrow> CachedPatternForEachFn \<Rightarrow> world \<Rightarrow> CachedSearchPatternsResult \<times> world" where
  "CachedSearchPatterns r fn w =
     (case SearchPostingsListCache (caches r) of
        None \<Rightarrow> (\<lparr>CacheSearchesDisabled = True, CachedPatternsResult = \<lparr>visited = []\<rparr>\<rparr>, w)
      | Some cache \<Rightarrow>
          if \<not> CacheSearches (opts r)
          then (\<lparr>CacheSearchesDisabled = True, CachedPatternsResult = \<lparr>visited = []\<rparr>\<rparr>, w)
          else
            (case CachedPatterns cache (uuid r) \<lparr>PatternType = Some PatternTypeSearch\<rparr> fn w of
               (res, w') \<Rightarrow> (\<lparr>CacheSearchesDisabled = False, CachedPatternsResult = res\<rparr>, w')))"

section \<open>The read-through reader\<close>

text \<open>A call on the underlying reader: its answer, and the call on the trace.\<close>

definition underlying :: "reader_call \<Rightarrow> 'a \<Rightarrow> world \<Rightarrow> 'a \<times> world" where
  "underlying c answer w = (answer, emit (Reader_Call c) w)"

definition MatchRegexp ::
  "readThroughSegmentReader \<Rightarrow> bytes \<Rightarrow> CompiledRegex \<Rightarrow> world \<Rightarrow> postings_List result \<times> world" where
  "MatchRegexp s field c w =
     (case SegmentPostingsListCache (reader_caches s) of
        None \<Rightarrow> underlying (R_MatchRegexp field c) (MatchRegexp_u (reader s) field c) w
      | Some cache \<Rightarrow>
          if \<not> CacheRegexp (reader_opts s)
          then underlying (R_MatchRegexp field c) (MatchRegexp_u (reader s) field c) w
          else
            (let fieldStr = go_string field;
                 patternStr = Regexp_String (FSTSyntax c)
             in case GetRegexp cache (reader_uuid s) fieldStr patternStr w of
                  (Some pl, w1) \<Rightarrow> ((pl, None), w1)
                | (None, w1) \<Rightarrow>
                    (case underlying (R_MatchRegexp field c) (MatchRegexp_u (reader s) field c) w1 of
                       ((pl, None), w2) \<Rightarrow>
                         ((pl, None), PutRegexp cache (reader_uuid s) fieldStr patternStr pl w2)
                     | ((pl, Some err), w2) \<Rightarrow> ((pl, Some err), w2))))"

definition MatchTerm ::
  "readThroughSegmentReader \<Rightarrow> bytes \<Rightarrow> bytes \<Rightarrow> world \<Rightarrow> postings_List result \<times> world" where
  "MatchTerm s field term w =
     (case SegmentPostingsListCache (reader_caches s) of
        None \<Rightarrow> underlying (R_MatchTerm field term) (MatchTerm_u (reader s) field term) w
      | Some cache \<Rightarrow>
          if \<not> CacheTerms (reader_opts s)
          then underlying (R_MatchTerm field term) (MatchTerm_u (reader s) field term) w
          else
            (let fieldStr = go_string field;
                 patternStr = go_string term
             in case GetTerm cache (reader_uuid s) fieldStr patternStr w of
                  (Some pl, w1) \<Rightarrow> ((pl, None), w1)
                | (None, w1) \<Rightarrow>
                    (case underlying (R_MatchTerm field term) (MatchTerm_u (reader s) field term) w1 of
                       ((pl, None), w2) \<Rightarrow>
                         ((pl, None), PutTerm cache (reader_uuid s) fieldStr patternStr pl w2)
                     | ((pl, Some err), w2) \<Rightarrow> ((pl, Some err), w2))))"

definition MatchField ::
  "readThroughSegmentReader \<Rightarrow> bytes \<Rightarrow> world \<Rightarrow> postings_List result \<times> world" where
  "MatchField s field w =
     (case SegmentPostingsListCache (reader_caches s) of
        None \<Rightarrow> underlying (R_MatchField field) (MatchField_u (reader s) field) w
      | Some cache \<Rightarrow>
          if \<not> CacheTerms (reader_opts s)
          then underlying (R_MatchField field) (MatchField_u (reader s) field) w
          else
            (let fieldStr = go_string field
             in case GetField cache (reader_uuid s) fieldStr w of
                  (Some pl, w1) \<Rightarrow> ((pl, None), w1)
                | (None, w1) \<Rightarrow>
                    (case underlying (R_MatchField field) (MatchField_u (reader s) field) w1 of
                       ((pl, None), w2) \<Rightarrow> ((pl, None), PutField cache (reader_uuid s) fieldStr pl w2)
                     | ((pl, Some err), w2) \<Rightarrow> ((pl, Some err), w2))))"

definition MatchAll :: "readThroughSegmentReader \<Rightarrow> world \<Rightarrow> postings_List result \<times> world" where
  "MatchAll s w = underlying R_MatchAll (MatchAll_u (reader s)) w"

definition AllDocs :: "readThroughSegmentReader \<Rightarrow> world \<Rightarrow> IDDocIterator result \<times> world" where
  "AllDocs s w = underlying R_AllDocs (AllDocs_u (reader s)) w"

definition Metadata :: "readThroughSegmentReader \<Rightarrow> nat \<Rightarrow> world \<Rightarrow> Metadata result \<times> world" where
  "Metadata s pid w = underlying (R_Metadata pid) (Metadata_u (reader s) pid) w"

definition MetadataIterator ::
  "readThroughSegmentReader \<Rightarrow> postings_List \<Rightarrow> world \<Rightarrow> MetadataIterator result \<times> world" where
  "MetadataIterator s pl w = underlying (R_MetadataIterator pl) (MetadataIterator_u (reader s) pl) w"

definition Doc :: "readThroughSegmentReader \<Rightarrow> nat \<Rightarrow> world \<Rightarrow> Document result \<times> world" where
  "Doc s pid w = underlying (R_Doc pid) (Doc_u (reader s) pid) w"

definition Docs :: "readThroughSegmentReader \<Rightarrow> postings_List \<Rightarrow> world \<Rightarrow> DocIterator result \<times> world" where
  "Docs s pl w = underlying (R_Docs pl) (Docs_u (reader s) pl) w"

definition Fields :: "readThroughSegmentReader \<Rightarrow> world \<Rightarrow> FieldsIterator result \<times> world" where
  "Fields s w = underlying R_Fields (Fields_u (reader s)) w"

definition FieldsPostingsList ::
  "readThroughSegmentReader \<Rightarrow> world \<Rightarrow> FieldsPostingsListIterator result \<times> world" where
  "FieldsPostingsList s w = underlying R_FieldsPostingsList (FieldsPostingsList_u (reader s)) w"

definition ContainsField :: "readThroughSegmentReader \<Rightarrow> bytes \<Rightarrow> world \<Rightarrow> bool result \<times> world" where
  "ContainsField s field w = underlying (R_ContainsField field) (ContainsField_u (reader s) field) w"

definition Terms :: "readThroughSegmentReader \<Rightarrow> bytes \<Rightarrow> world \<Rightarrow> TermsIterator result \<times> world" where
  "Terms s field w = underlying (R_Terms field) (Terms_u (reader s) field) w"

definition Reader_Close :: "readThroughSegmentReader \<Rightarrow> world \<Rightarrow> error option \<times> world" where
  "Reader_Close s w = underlying R_Close (Close_u (reader s)) w"

text \<open>
  A searcher is handed the read-through reader itself and may call any of its methods,
  so it acts on the world; what it does is its own.
\<close>

type_synonym Searcher = "readThroughSegmentReader \<Rightarrow> world \<Rightarrow> postings_List result \<times> world"

definition Search ::
  "readThroughSegmentReader \<Rightarrow> Query \<Rightarrow> Searcher \<Rightarrow> world \<Rightarrow> postings_List result \<times> world" where
  "Search s query searcher w =
     (case SearchPostingsListCache (reader_caches s) of
        None \<Rightarrow> searcher s w
      | Some cache \<Rightarrow>
          if \<not> CacheSearches (reader_opts s) then searcher s w
          else
            (let queryStr = Query_String query
             in case GetSearch cache (reader_uuid s) queryStr w of
                  (Some pl, w1) \<Rightarrow> ((pl, None), w1)
                | (None, w1) \<Rightarrow>
                    (case searcher s w1 of
                       ((pl, Some err), w2) \<Rightarrow> ((nil_List, Some err), w2)
                     | ((pl, None), w2) \<Rightarrow>
                         ((pl, None), PutSearch cache (reader_uuid s) queryStr query pl w2))))"

section \<open>Notions used in the statements\<close>

text \<open>
  The cache a reader uses for a kind of query, if any: its handle must be non-nil and the
  kind enabled in the options. These are the guards at the head of \<^verbatim>\<open>MatchRegexp\<close>,
  \<^verbatim>\<open>MatchTerm\<close>, \<^verbatim>\<open>MatchField\<close> and \<^verbatim>\<open>Search\<close>.
\<close>

definition caching_regexp :: "readThroughSegmentReader \<Rightarrow> addr option" where
  "caching_regexp s =
     (case SegmentPostingsListCache (reader_caches s) of
        None \<Rightarrow> None
      | Some cache \<Rightarrow> if CacheRegexp (reader_opts s) then Some cache else None)"

definition caching_terms :: "readThroughSegmentReader \<Rightarrow> addr option" where
  "caching_terms s =
     (case SegmentPostingsListCache (reader_caches s) of
        None \<Rightarrow> None
      | Some cache \<Rightarrow> if CacheTerms (reader_opts s) then Some cache else None)"

definition caching_searches :: "readThroughSegmentReader \<Rightarrow> addr option" where
  "caching_searches s =
     (case SearchPostingsListCache (reader_caches s) of
        None \<Rightarrow> None
      | Some cache \<Rightarrow> if CacheSearches (reader_opts s) then Some cache else None)"

text \<open>The keys under which the four cached operations look up and store.\<close>

definition MatchRegexp_key :: "readThroughSegmentReader \<Rightarrow> bytes \<Rightarrow> CompiledRegex \<Rightarrow> key" where
  "MatchRegexp_key s field c =
     regexp_key (reader_uuid s) (go_string field) (Regexp_String (FSTSyntax c))"

definition MatchTerm_key :: "readThroughSegmentReader \<Rightarrow> bytes \<Rightarrow> bytes \<Rightarrow> key" where
  "MatchTerm_key s field term = term_key (reader_uuid s) (go_string field) (go_string term)"

definition MatchField_key :: "readThroughSegmentReader \<Rightarrow> bytes \<Rightarrow> key" where
  "MatchField_key s field = field_key (reader_uuid s) (go_string field)"

definition Search_key :: "readThroughSegmentReader \<Rightarrow> Query \<Rightarrow> key" where
  "Search_key s query = search_key (reader_uuid s) (Query_String query)"

text \<open>
  The shape shared by the cached branches of \<^verbatim>\<open>MatchRegexp\<close>, \<^verbatim>\<open>MatchTerm\<close> and
  \<^verbatim>\<open>MatchField\<close>: look the key up; on a hit return the cached list; on a miss call the
  underlying reader and store its list if it did not fail.
\<close>

definition read_through ::
  "addr \<Rightarrow> PatternType \<Rightarrow> key \<Rightarrow> reader_call \<Rightarrow> postings_List result \<Rightarrow> world
     \<Rightarrow> postings_List result \<times> world" where
  "read_through a t k call answer w =
     (case heap_get a t k w of
        (Some pl, w1) \<Rightarrow> ((pl, None), w1)
      | (None, w1) \<Rightarrow>
          (case underlying call answer w1 of
             ((pl, None), w2) \<Rightarrow> ((pl, None), heap_put a t k pl w2)
           | ((pl, Some err), w2) \<Rightarrow> ((pl, Some err), w2)))"

text \<open>
  A slot of the cache agrees with an answer of the underlying reader when it is empty or
  holds the postings list of that answer, the answer being a success.
\<close>

definition agrees :: "postings_List option \<Rightarrow> postings_List result \<Rightarrow> bool" where
  "agrees slot answer = (case slot of None \<Rightarrow> True | Some pl \<Rightarrow> answer = (pl, None))"

text \<open>A postings list fits an LRU when it alone does not exceed the budgets.\<close>

definition fits :: "world \<Rightarrow> addr \<Rightarrow> PatternType \<Rightarrow> postings_List \<Rightarrow> bool" where
  "fits w a t pl \<longleftrightarrow>
     memory_bytes pl \<le> max_bytes (lrus (heap w a) t) \<and> 1 \<le> max_entries (lrus (heap w a) t)"

text \<open>The cache at an address has not purged a segment identifier.\<close>

definition unpurged :: "world \<Rightarrow> addr \<Rightarrow> UUID \<Rightarrow> bool" where
  "unpurged w a u \<longleftrightarrow> u \<notin> set (purged_segments (heap w a))"

text \<open>What an operation added to the trace.\<close>

definition new_effects :: "world \<Rightarrow> world \<Rightarrow> effect list" where
  "new_effects w w' = drop (length (trace w)) (trace w')"

fun is_put :: "effect \<Rightarrow> bool" where
  "is_put (Cache_Put a t k pl) = True"
| "is_put e = False"

text \<open>
  A pass-through returns the answer of the underlying reader, leaves every cache as it
  was, and adds to the trace the call on the underlying reader and nothing else.
\<close>

definition pass_through :: "'a \<times> world \<Rightarrow> reader_call \<Rightarrow> 'a \<Rightarrow> world \<Rightarrow> bool" where
  "pass_through res c answer w \<longleftrightarrow>
     fst res = answer \<and> heap (snd res) = heap w \<and> trace (snd res) = trace w @ [Reader_Call c]"

text \<open>The cache at an address holds no entry of a segment identifier, in any of its LRUs.\<close>

definition purged :: "world \<Rightarrow> addr \<Rightarrow> UUID \<Rightarrow> bool" where
  "purged w a u \<longleftrightarrow>
     list_all (\<lambda>t. list_all (\<lambda>e. key_segment (fst e) \<noteq> u) (items (lrus (heap w a) t)))
       [PatternTypeRegexp, PatternTypeTerm, PatternTypeField, PatternTypeSearch]"

text \<open>The purge calls of \<^verbatim>\<open>Close\<close>, in program order.\<close>

definition purge_calls :: "ReadThroughSegmentCaches \<Rightarrow> UUID \<Rightarrow> effect list" where
  "purge_calls cs u =
     (case SegmentPostingsListCache cs of None \<Rightarrow> [] | Some a \<Rightarrow> [Cache_PurgeSegment a u])
     @ (case SearchPostingsListCache cs of None \<Rightarrow> [] | Some a \<Rightarrow> [Cache_PurgeSegment a u])"

subsection \<open>Histories of a segment\<close>

text \<open>
  The operations that may follow one another on a segment: its ten methods, and any
  method of a reader obtained from it earlier (or any other use of the shared caches),
  which acts on the world and has no access to the fields of the segment.
\<close>

datatype segment_op =
    Op_Reader
  | Op_Close
  | Op_FieldsIterable
  | Op_TermsIterable
  | Op_ContainsID bytes
  | Op_ContainsField bytes
  | Op_FreeMmap
  | Op_Size
  | Op_PutCachedSearchPattern string Query postings_List
  | Op_CachedSearchPatterns CachedPatternForEachFn
  | Op_MatchRegexp readThroughSegmentReader bytes CompiledRegex
  | Op_MatchTerm readThroughSegmentReader bytes bytes
  | Op_MatchField readThroughSegmentReader bytes
  | Op_Search readThroughSegmentReader Query Searcher

fun step :: "segment_op \<Rightarrow> ReadThroughSegment \<times> world \<Rightarrow> ReadThroughSegment \<times> world" where
  "step Op_Reader (r, w) = (r, snd (Reader r w))"
| "step Op_Close (r, w) = snd (Close r w)"
| "step Op_FieldsIterable (r, w) = (r, snd (FieldsIterable r w))"
| "step Op_TermsIterable (r, w) = (r, snd (TermsIterable r w))"
| "step (Op_ContainsID b) (r, w) = (r, snd (ContainsID r b w))"
| "step (Op_ContainsField b) (r, w) = (r, snd (Segment_ContainsField r b w))"
| "step Op_FreeMmap (r, w) = (r, snd (FreeMmap r w))"
| "step Op_Size (r, w) = (r, snd (Size r w))"
| "step (Op_PutCachedSearchPattern q query pl) (r, w) = (r, PutCachedSearchPattern r q query pl w)"
| "step (Op_CachedSearchPatterns fn) (r, w) = (r, snd (CachedSearchPatterns r fn w))"
| "step (Op_MatchRegexp s field c) (r, w) = (r, snd (MatchRegexp s field c w))"
| "step (Op_MatchTerm s field term) (r, w) = (r, snd (MatchTerm s field term w))"
| "step (Op_MatchField s field) (r, w) = (r, snd (MatchField s field w))"
| "step (Op_Search s query searcher) (r, w) = (r, snd (Search s query searcher w))"

definition run :: "segment_op list \<Rightarrow> ReadThroughSegment \<times> world \<Rightarrow> ReadThroughSegment \<times> world" where
  "run ops st = fold step ops st"

subsection \<open>A small segment to evaluate on\<close>

text \<open>
  Two documents: document 1 has color red and shape square, document 2 has color red and
  shape circle. The underlying reader fails on the field \<open>broken\<close>.
\<close>

definition doc1 :: Metadata where
  "doc1 = \<lparr>doc_ID = ''doc1'', doc_Fields = [(''color'', ''red''), (''shape'', ''square'')]\<rparr>"

definition doc2 :: Metadata where
  "doc2 = \<lparr>doc_ID = ''doc2'', doc_Fields = [(''color'', ''red''), (''shape'', ''circle'')]\<rparr>"

definition example_reader :: segment_Reader where
  "example_reader =
     \<lparr>MatchRegexp_u = (\<lambda>f c. if f = ''shape'' \<and> FST c = 1 then (List [1] 8, None)
                               else (List [] 0, None)),
      MatchTerm_u = (\<lambda>f t. if f = ''broken'' then (nil_List, Some (errUnderlying ''read failed''))
                            else if f = ''color'' \<and> t = ''red'' then (List [1, 2] 16, None)
                            else (List [] 0, None)),
      MatchField_u = (\<lambda>f. if f = ''broken'' then (nil_List, Some (errUnderlying ''read failed''))
                          else if f = ''color'' \<or> f = ''shape'' then (List [1, 2] 16, None)
                          else (List [] 0, None)),
      MatchAll_u = (List [1, 2] 16, None),
      AllDocs_u = ([(1, doc1), (2, doc2)], None),
      Metadata_u = (\<lambda>i. if i = 1 then (doc1, None) else if i = 2 then (doc2, None)
                         else (\<lparr>doc_ID = [], doc_Fields = []\<rparr>, Some (errUnderlying ''no such document''))),
      MetadataIterator_u = (\<lambda>pl. ([doc1, doc2], None)),
      Doc_u = (\<lambda>i. (DocumentFromMetadata doc1, None)),
      Docs_u = (\<lambda>pl. ([DocumentFromMetadata doc1, DocumentFromMetadata doc2], None)),
      Fields_u = ([''color'', ''shape''], None),
      FieldsPostingsList_u = ([(''color'', List [1, 2] 16), (''shape'', List [1, 2] 16)], None),
      ContainsField_u = (\<lambda>f. (f = ''color'' \<or> f = ''shape'', None)),
      Terms_u = (\<lambda>f. if f = ''color'' then ([(''red'', List [1, 2] 16)], None) else ([], None)),
      Close_u = None\<rparr>"

text \<open>The underlying segment of the example fails to close.\<close>

definition example_segment :: ImmutableSegment where
  "example_segment =
     \<lparr>Reader_seg = (example_reader, None),
      Close_seg = Some (errUnderlying ''munmap failed''),
      FieldsIterable_seg = ([''color'', ''shape''], None),
      TermsIterable_seg = (\<lambda>f. ([], None)),
      ContainsID_seg = (\<lambda>b. (b = ''doc1'' \<or> b = ''doc2'', None)),
      ContainsField_seg = (\<lambda>f. (f = ''color'' \<or> f = ''shape'', None)),
      FreeMmap_seg = None,
      Size_seg = 2\<rparr>"

definition example_cache :: PostingsListCache where
  "example_cache =
     \<lparr>lrus = (\<lambda>t. \<lparr>max_bytes = 64, max_entries = 3, items = []\<rparr>), purged_segments = []\<rparr>"

definition example_world :: world where
  "example_world = \<lparr>heap = (\<lambda>a. example_cache), trace = []\<rparr>"

text \<open>Caches that hold a wrong postings list under every key the example looks up.\<close>

definition stale_cache :: PostingsListCache where
  "stale_cache =
     \<lparr>lrus = (\<lambda>t. \<lparr>max_bytes = 64, max_entries = 4,
        items = [(Key 7 ''color'' ''red'', List [99] 8), (Key 7 ''shape'' ''squa.*'', List [99] 8),
                 (Key 7 ''color'' [], List [99] 8), (Key 7 [] ''color:red'', List [99] 8)]\<rparr>),
      purged_segments = []\<rparr>"

definition stale_world :: world where
  "stale_world = \<lparr>heap = (\<lambda>a. stale_cache), trace = []\<rparr>"

definition all_enabled :: ReadThroughSegmentOptions where
  "all_enabled = \<lparr>CacheRegexp = True, CacheTerms = True, CacheSearches = True\<rparr>"

definition all_disabled :: ReadThroughSegmentOptions where
  "all_disabled = \<lparr>CacheRegexp = False, CacheTerms = False, CacheSearches = False\<rparr>"

definition two_caches :: ReadThroughSegmentCaches where
  "two_caches = \<lparr>SegmentPostingsListCache = Some 0, SearchPostingsListCache = Some 1\<rparr>"

definition no_caches :: ReadThroughSegmentCaches where
  "no_caches = \<lparr>SegmentPostingsListCache = None, SearchPostingsListCache = None\<rparr>"

definition example_rts :: ReadThroughSegment where
  "example_rts = NewReadThroughSegment example_segment two_caches all_enabled 7"

definition example_rts_reader :: readThroughSegmentReader where
  "example_rts_reader = newReadThroughSegmentReader example_reader 7 two_caches all_enabled"

text \<open>A searcher that answers a term query through the reader it is given.\<close>

definition term_searcher :: "bytes \<Rightarrow> bytes \<Rightarrow> Searcher" where
  "term_searcher field term s w = MatchTerm s field term w"

section \<open>Facts about the LRU\<close>


lemma map_of_remove_key_same: "map_of (lru_remove_key k xs) k = None"
  by (induction xs) (auto simp: lru_remove_key_def)

lemma map_of_remove_key_other: "k' \<noteq> k \<Longrightarrow> map_of (lru_remove_key k xs) k' = map_of xs k'"
  by (induction xs) (auto simp: lru_remove_key_def)

lemma map_of_promote:
  "map_of xs k = Some v \<Longrightarrow> map_of ((k, v) # lru_remove_key k xs) k' = map_of xs k'"
  by (cases "k' = k") (simp_all add: map_of_remove_key_other)

lemma map_of_take_Some: "map_of (take n xs) k = Some v \<Longrightarrow> map_of xs k = Some v"
proof (induction xs arbitrary: n)
  case Nil
  then show ?case by simp
next
  case (Cons x xs)
  then show ?case by (cases n) (auto split: if_splits)
qed

lemma lru_evict_prefix: "\<exists>n. lru_evict mb me xs = take n xs"
proof (induction mb me xs rule: lru_evict.induct)
  case (1 mb me xs)
  show ?case
  proof (cases "xs \<noteq> [] \<and> over_budget mb me xs")
    case True
    with 1 obtain n where "lru_evict mb me (butlast xs) = take n (butlast xs)" by blast
    then have "lru_evict mb me xs = take (min n (length xs - 1)) xs"
      using True by (subst lru_evict.simps) (simp add: butlast_conv_take min.commute)
    then show ?thesis by blast
  next
    case False
    then have "lru_evict mb me xs = take (length xs) xs"
      by (subst lru_evict.simps) auto
    then show ?thesis by blast
  qed
qed

lemma lru_evict_nonempty:
  "xs \<noteq> [] \<Longrightarrow> \<not> over_budget mb me [hd xs] \<Longrightarrow> lru_evict mb me xs \<noteq> []"
proof (induction mb me xs rule: lru_evict.induct)
  case (1 mb me xs)
  show ?case
  proof (cases "over_budget mb me xs")
    case True
    have ne: "butlast xs \<noteq> []"
    proof
      assume "butlast xs = []"
      with \<open>xs \<noteq> []\<close> have "xs = [hd xs]" by (cases xs) (auto split: if_splits)
      with True "1.prems"(2) show False by simp
    qed
    then have "hd (butlast xs) = hd xs" by (cases xs) auto
    with 1 True ne have "lru_evict mb me (butlast xs) \<noteq> []" by simp
    then show ?thesis using True "1.prems"(1) by (subst lru_evict.simps) simp
  next
    case False
    then show ?thesis using "1.prems"(1) by (subst lru_evict.simps) simp
  qed
qed

lemma lru_peek_put_same: "lru_peek (lru_put l k v) k = None \<or> lru_peek (lru_put l k v) k = Some v"
proof -
  obtain n where "lru_evict (max_bytes l) (max_entries l) ((k, v) # lru_remove_key k (items l))
      = take n ((k, v) # lru_remove_key k (items l))"
    using lru_evict_prefix by blast
  then show ?thesis by (cases n) (simp_all add: lru_peek_def lru_put_def)
qed

lemma lru_peek_put_fits:
  "memory_bytes v \<le> max_bytes l \<Longrightarrow> 1 \<le> max_entries l \<Longrightarrow> lru_peek (lru_put l k v) k = Some v"
proof -
  assume f: "memory_bytes v \<le> max_bytes l" "1 \<le> max_entries l"
  let ?xs = "(k, v) # lru_remove_key k (items l)"
  obtain n where n: "lru_evict (max_bytes l) (max_entries l) ?xs = take n ?xs"
    using lru_evict_prefix by blast
  have "\<not> over_budget (max_bytes l) (max_entries l) [hd ?xs]"
    using f by (simp add: over_budget_def total_bytes_def)
  then have "lru_evict (max_bytes l) (max_entries l) ?xs \<noteq> []"
    by (intro lru_evict_nonempty) simp_all
  with n have "n \<noteq> 0" by auto
  with n show ?thesis by (cases n) (simp_all add: lru_peek_def lru_put_def)
qed

lemma lru_peek_put_other:
  "k' \<noteq> k \<Longrightarrow> lru_peek (lru_put l k v) k' = Some v' \<Longrightarrow> lru_peek l k' = Some v'"
proof -
  assume ne: "k' \<noteq> k" and p: "lru_peek (lru_put l k v) k' = Some v'"
  let ?xs = "(k, v) # lru_remove_key k (items l)"
  obtain n where n: "lru_evict (max_bytes l) (max_entries l) ?xs = take n ?xs"
    using lru_evict_prefix by blast
  from p n have "map_of (take n ?xs) k' = Some v'" by (simp add: lru_peek_def lru_put_def)
  then have "map_of ?xs k' = Some v'" by (rule map_of_take_Some)
  with ne show ?thesis by (simp add: lru_peek_def map_of_remove_key_other)
qed

lemma lru_get_fst: "fst (lru_get l k) = lru_peek l k"
  by (simp add: lru_get_def lru_peek_def split: option.splits)

lemma lru_get_peek: "lru_peek (snd (lru_get l k)) k' = lru_peek l k'"
proof (cases "map_of (items l) k")
  case None
  then show ?thesis by (simp add: lru_get_def lru_peek_def)
next
  case (Some v)
  then show ?thesis
    using map_of_promote [OF Some, of k'] by (simp add: lru_get_def lru_peek_def)
qed

lemma lru_get_miss: "lru_peek l k = None \<Longrightarrow> lru_get l k = (None, l)"
  by (simp add: lru_get_def lru_peek_def)

lemma map_of_purge:
  "map_of (filter (\<lambda>e. key_segment (fst e) \<noteq> u) xs) k = (if key_segment k = u then None else map_of xs k)"
  by (induction xs) auto

lemma lru_purge_peek:
  "lru_peek (snd (lru_purge l u)) k = (if key_segment k = u then None else lru_peek l k)"
  by (simp add: lru_purge_def lru_peek_def map_of_purge)


lemma lru_put_budgets: "max_bytes (lru_put l k v) = max_bytes l \<and> max_entries (lru_put l k v) = max_entries l"
  by (simp add: lru_put_def)

lemma lru_get_budgets:
  "max_bytes (snd (lru_get l k)) = max_bytes l \<and> max_entries (snd (lru_get l k)) = max_entries l"
  by (simp add: lru_get_def split: option.splits)

lemma lru_purge_items:
  "list_all (\<lambda>e. key_segment (fst e) \<noteq> u) (items (snd (lru_purge l u)))"
  by (simp add: lru_purge_def list_all_iff)

section \<open>Facts about the caches in the world\<close>

lemma heap_emit [simp]: "heap (emit e w) = heap w"
  by (simp add: emit_def)

lemma trace_emit [simp]: "trace (emit e w) = trace w @ [e]"
  by (simp add: emit_def)

lemma peek_emit [simp]: "peek (emit e w) a t k = peek w a t k"
  by (simp add: peek_def)

lemma fits_emit [simp]: "fits (emit e w) a t pl = fits w a t pl"
  by (simp add: fits_def)

lemma heap_get_fst: "fst (heap_get a t k w) = peek w a t k"
  by (simp add: heap_get_def cache_get_def peek_def cache_peek_def lru_get_fst [symmetric]
      split: prod.splits)

lemma heap_get_peek: "peek (snd (heap_get a t k w)) a' t' k' = peek w a' t' k'"
proof -
  obtain r l' where g: "lru_get (lrus (heap w a) t) k = (r, l')"
    by (cases "lru_get (lrus (heap w a) t) k")
  then have "lru_peek l' k' = lru_peek (lrus (heap w a) t) k'"
    using lru_get_peek [of "lrus (heap w a) t" k k'] by simp
  with g show ?thesis
    by (simp add: heap_get_def cache_get_def peek_def cache_peek_def)
qed

lemma heap_get_trace: "trace (snd (heap_get a t k w)) = trace w @ [Cache_Get a t k]"
  by (simp add: heap_get_def split: prod.splits)

lemma heap_get_miss:
  assumes "peek w a t k = None"
  shows "heap_get a t k w = (None, emit (Cache_Get a t k) w)"
proof -
  from assms have "lru_get (lrus (heap w a) t) k = (None, lrus (heap w a) t)"
    by (simp add: peek_def cache_peek_def lru_get_miss)
  then show ?thesis
    by (simp add: heap_get_def cache_get_def emit_def)
qed

lemma heap_put_trace: "trace (heap_put a t k v w) = trace w @ [Cache_Put a t k v]"
  by (simp add: heap_put_def)

lemma key_segment_keys [simp]:
  "key_segment (regexp_key u f p) = u" "key_segment (term_key u f p) = u"
  "key_segment (field_key u f) = u" "key_segment (search_key u q) = u"
  by (simp_all add: regexp_key_def term_key_def field_key_def search_key_def)

lemma unpurged_emit [simp]: "unpurged (emit e w) a u = unpurged w a u"
  by (simp add: unpurged_def)

lemma heap_put_peek_same:
  "peek w a t k = None \<Longrightarrow>
     peek (heap_put a t k v w) a t k = None \<or> peek (heap_put a t k v w) a t k = Some v"
  using lru_peek_put_same [of "lrus (heap w a) t" k v]
  by (simp add: heap_put_def peek_def cache_peek_def cache_put_def)

lemma heap_put_peek_fits:
  "fits w a t v \<Longrightarrow> unpurged w a (key_segment k) \<Longrightarrow> peek (heap_put a t k v w) a t k = Some v"
  using lru_peek_put_fits [of v "lrus (heap w a) t" k]
  by (simp add: heap_put_def peek_def cache_peek_def cache_put_def fits_def unpurged_def)

lemma heap_put_dropped:
  "\<not> unpurged w a (key_segment k) \<Longrightarrow> heap (heap_put a t k v w) = heap w"
  by (simp add: heap_put_def cache_put_def unpurged_def)

lemma PurgeSegment_marks: "\<not> unpurged (snd (PurgeSegment a u w)) a u"
  by (simp add: PurgeSegment_def cache_purge_segment_def unpurged_def)

lemma heap_put_peek_other:
  assumes "(a', t', k') \<noteq> (a, t, k)" and "peek (heap_put a t k v w) a' t' k' = Some v'"
  shows "peek w a' t' k' = Some v'"
proof (cases "a' = a \<and> t' = t")
  case True
  with assms(1) have "k' \<noteq> k" by simp
  then show ?thesis
    using assms(2) True lru_peek_put_other [of k' k "lrus (heap w a) t" v v']
    by (simp add: heap_put_def peek_def cache_peek_def cache_put_def split: if_splits)
next
  case False
  then show ?thesis
    using assms(2)
    by (auto simp: heap_put_def peek_def cache_peek_def cache_put_def split: if_splits)
qed

lemma PurgeSegment_trace: "trace (snd (PurgeSegment a u w)) = trace w @ [Cache_PurgeSegment a u]"
  by (simp add: PurgeSegment_def split: prod.splits)

lemma PurgeSegment_peek:
  "peek (snd (PurgeSegment a u w)) a' t k =
     (if a' = a \<and> key_segment k = u then None else peek w a' t k)"
  by (simp add: PurgeSegment_def cache_purge_segment_def peek_def cache_peek_def lru_purge_peek)

lemma PurgeSegment_purged: "purged (snd (PurgeSegment a u w)) a u"
  by (simp add: PurgeSegment_def cache_purge_segment_def purged_def lru_purge_items)

lemma PurgeSegment_keeps_purged:
  "purged w a' u \<Longrightarrow> purged (snd (PurgeSegment a u w)) a' u"
  by (cases "a' = a")
    (simp_all add: PurgeSegment_def cache_purge_segment_def purged_def lru_purge_items)

lemma purged_emit [simp]: "purged (emit e w) a u = purged w a u"
  by (simp add: purged_def)

lemma purged_peek:
  assumes "purged w a u" and "key_segment k = u"
  shows "peek w a t k = None"
proof -
  from assms(1) have "list_all (\<lambda>e. key_segment (fst e) \<noteq> u) (items (lrus (heap w a) t))"
    by (cases t) (simp_all add: purged_def)
  then have "k \<notin> fst ` set (items (lrus (heap w a) t))"
    using assms(2) by (auto simp: list_all_iff)
  then show ?thesis
    by (simp add: peek_def cache_peek_def lru_peek_def map_of_eq_None_iff)
qed

section \<open>Closed segments\<close>

text \<open>
  Claim C4. \<^verbatim>\<open>Reader\<close> called on a closed segment fails with the error of a closed
  segment and returns no reader; \<^verbatim>\<open>Close\<close> called on a closed segment fails with the
  error of an already closed segment. Neither touches the world: no cache is purged and
  the underlying segment is not closed a second time (the trace is as it was), and the
  segment itself is unchanged.
\<close>

theorem closed_segment_rejects:
  "closed r \<Longrightarrow>
     Reader r w = ((None, Some errCantGetReaderFromClosedSegment), w)
     \<and> Close r w = (Some errCantCloseClosedSegment, r, w)"
  by (simp add: Reader_def Close_def)

theorem closed_segment_rejects_witness:
  "closed (example_rts\<lparr>closed := True\<rparr>)
   \<and> Reader (example_rts\<lparr>closed := True\<rparr>) example_world
       = ((None, Some errCantGetReaderFromClosedSegment), example_world)
   \<and> Close (example_rts\<lparr>closed := True\<rparr>) example_world
       = (Some errCantCloseClosedSegment, example_rts\<lparr>closed := True\<rparr>, example_world)"
  using closed_segment_rejects [of "example_rts\<lparr>closed := True\<rparr>" example_world]
  by simp

section \<open>Pass-through operations of the reader\<close>

text \<open>
  Claim C8. \<^verbatim>\<open>MatchAll\<close>, \<^verbatim>\<open>AllDocs\<close>, \<^verbatim>\<open>Docs\<close>, \<^verbatim>\<open>Metadata\<close>,
  \<^verbatim>\<open>MetadataIterator\<close>, \<^verbatim>\<open>Fields\<close>, \<^verbatim>\<open>FieldsPostingsList\<close>, \<^verbatim>\<open>Terms\<close> and
  \<^verbatim>\<open>ContainsField\<close> on the read-through reader are pass-throughs: for every input each
  returns the answer of the same call on the underlying reader, leaves every cache as it
  was, and its only effect is that one call on the underlying reader (no cache is
  consulted or populated).
\<close>

theorem reader_pass_throughs:
  "pass_through (MatchAll s w) R_MatchAll (MatchAll_u (reader s)) w
   \<and> pass_through (AllDocs s w) R_AllDocs (AllDocs_u (reader s)) w
   \<and> pass_through (Docs s pl w) (R_Docs pl) (Docs_u (reader s) pl) w
   \<and> pass_through (Metadata s i w) (R_Metadata i) (Metadata_u (reader s) i) w
   \<and> pass_through (MetadataIterator s pl w) (R_MetadataIterator pl)
         (MetadataIterator_u (reader s) pl) w
   \<and> pass_through (Fields s w) R_Fields (Fields_u (reader s)) w
   \<and> pass_through (FieldsPostingsList s w) R_FieldsPostingsList
         (FieldsPostingsList_u (reader s)) w
   \<and> pass_through (Terms s field w) (R_Terms field) (Terms_u (reader s) field) w
   \<and> pass_through (ContainsField s field w) (R_ContainsField field)
         (ContainsField_u (reader s) field) w"
  by (simp add: pass_through_def underlying_def MatchAll_def AllDocs_def Docs_def
      Metadata_def MetadataIterator_def Fields_def FieldsPostingsList_def Terms_def
      ContainsField_def)

section \<open>Bypassing the caches\<close>

lemma MatchRegexp_bypass:
  "caching_regexp s = None \<Longrightarrow>
     MatchRegexp s field c w = underlying (R_MatchRegexp field c) (MatchRegexp_u (reader s) field c) w"
  by (simp add: caching_regexp_def MatchRegexp_def split: option.splits if_splits)

lemma MatchTerm_bypass:
  "caching_terms s = None \<Longrightarrow>
     MatchTerm s field term w = underlying (R_MatchTerm field term) (MatchTerm_u (reader s) field term) w"
  by (simp add: caching_terms_def MatchTerm_def split: option.splits if_splits)

lemma MatchField_bypass:
  "caching_terms s = None \<Longrightarrow>
     MatchField s field w = underlying (R_MatchField field) (MatchField_u (reader s) field) w"
  by (simp add: caching_terms_def MatchField_def split: option.splits if_splits)

lemma Search_bypass: "caching_searches s = None \<Longrightarrow> Search s query searcher w = searcher s w"
  by (simp add: caching_searches_def Search_def split: option.splits if_splits)

lemma underlying_pass_through: "pass_through (underlying c answer w) c answer w"
  by (simp add: pass_through_def underlying_def)

text \<open>
  Claim C5. When a kind of cache is disabled in the options, the corresponding operations
  of the reader neither consult nor populate a cache and delegate to the underlying
  reader, for every input: with \<^verbatim>\<open>CacheRegexp\<close> off, \<^verbatim>\<open>MatchRegexp\<close> is a
  pass-through; with \<^verbatim>\<open>CacheTerms\<close> off, \<^verbatim>\<open>MatchTerm\<close> and \<^verbatim>\<open>MatchField\<close> are
  pass-throughs; with \<^verbatim>\<open>CacheSearches\<close> off, \<^verbatim>\<open>Search\<close> is the run of the searcher
  on the reader and nothing more.
\<close>

theorem disabled_kinds_bypass:
  "(\<not> CacheRegexp (reader_opts s) \<longrightarrow>
      pass_through (MatchRegexp s field c w) (R_MatchRegexp field c)
        (MatchRegexp_u (reader s) field c) w)
   \<and> (\<not> CacheTerms (reader_opts s) \<longrightarrow>
      pass_through (MatchTerm s field term w) (R_MatchTerm field term)
        (MatchTerm_u (reader s) field term) w
      \<and> pass_through (MatchField s field w) (R_MatchField field)
        (MatchField_u (reader s) field) w)
   \<and> (\<not> CacheSearches (reader_opts s) \<longrightarrow> Search s query searcher w = searcher s w)"
proof (intro conjI impI)
  assume "\<not> CacheRegexp (reader_opts s)"
  then have "caching_regexp s = None"
    by (simp add: caching_regexp_def split: option.splits)
  then show "pass_through (MatchRegexp s field c w) (R_MatchRegexp field c)
      (MatchRegexp_u (reader s) field c) w"
    by (simp add: MatchRegexp_bypass underlying_pass_through)
next
  assume "\<not> CacheTerms (reader_opts s)"
  then have off: "caching_terms s = None"
    by (simp add: caching_terms_def split: option.splits)
  from off show "pass_through (MatchTerm s field term w) (R_MatchTerm field term)
      (MatchTerm_u (reader s) field term) w"
    by (simp add: MatchTerm_bypass underlying_pass_through)
  from off show "pass_through (MatchField s field w) (R_MatchField field)
      (MatchField_u (reader s) field) w"
    by (simp add: MatchField_bypass underlying_pass_through)
next
  assume "\<not> CacheSearches (reader_opts s)"
  then have "caching_searches s = None"
    by (simp add: caching_searches_def split: option.splits)
  then show "Search s query searcher w = searcher s w"
    by (rule Search_bypass)
qed

text \<open>
  The reader of the example with every kind disabled, over caches that hold entries: the
  entries are not consulted.
\<close>

theorem disabled_kinds_bypass_witness:
  "pass_through
     (MatchRegexp (example_rts_reader\<lparr>reader_opts := all_disabled\<rparr>) ''shape''
        \<lparr>FSTSyntax = syntax_Regexp ''squa.*'', FST = 1\<rparr> stale_world)
     (R_MatchRegexp ''shape'' \<lparr>FSTSyntax = syntax_Regexp ''squa.*'', FST = 1\<rparr>)
     (List [1] 8, None) stale_world
   \<and> pass_through
     (MatchTerm (example_rts_reader\<lparr>reader_opts := all_disabled\<rparr>) ''color'' ''red'' stale_world)
     (R_MatchTerm ''color'' ''red'') (List [1, 2] 16, None) stale_world
   \<and> pass_through
     (MatchField (example_rts_reader\<lparr>reader_opts := all_disabled\<rparr>) ''color'' stale_world)
     (R_MatchField ''color'') (List [1, 2] 16, None) stale_world
   \<and> Search (example_rts_reader\<lparr>reader_opts := all_disabled\<rparr>) (Query 0 ''color:red'')
       (term_searcher ''color'' ''red'') stale_world
     = term_searcher ''color'' ''red'' (example_rts_reader\<lparr>reader_opts := all_disabled\<rparr>)
         stale_world"
  using disabled_kinds_bypass [of "example_rts_reader\<lparr>reader_opts := all_disabled\<rparr>"
      "''shape''" "\<lparr>FSTSyntax = syntax_Regexp ''squa.*'', FST = 1\<rparr>" stale_world
      "''red''" "Query 0 ''color:red''" "term_searcher ''color'' ''red''"]
    disabled_kinds_bypass [of "example_rts_reader\<lparr>reader_opts := all_disabled\<rparr>"
      "''color''" "\<lparr>FSTSyntax = syntax_Regexp ''squa.*'', FST = 1\<rparr>" stale_world
      "''red''" "Query 0 ''color:red''" "term_searcher ''color'' ''red''"]
  by (simp add: example_rts_reader_def newReadThroughSegmentReader_def all_disabled_def
      example_reader_def)

section \<open>Nil cache handles\<close>

lemma purge_if_present_trace:
  "trace (purge_if_present h u w) =
     trace w @ (case h of None \<Rightarrow> [] | Some a \<Rightarrow> [Cache_PurgeSegment a u])"
  by (simp add: purge_if_present_def PurgeSegment_trace split: option.splits)

lemma Close_open:
  "\<not> closed r \<Longrightarrow>
     Close r w =
       (Close_seg (segment r), r\<lparr>closed := True\<rparr>,
        emit (Segment_Call S_Close)
          (purge_if_present (SearchPostingsListCache (caches r)) (uuid r)
             (purge_if_present (SegmentPostingsListCache (caches r)) (uuid r)
                (emit Set_closed w))))"
  by (simp add: Close_def Let_def)

text \<open>
  Claim C10. A nil cache handle is handled at every entry point. With a nil segment cache
  \<^verbatim>\<open>MatchRegexp\<close>, \<^verbatim>\<open>MatchTerm\<close> and \<^verbatim>\<open>MatchField\<close> are pass-throughs to the
  underlying reader, and with a nil search cache \<^verbatim>\<open>Search\<close> is the run of the searcher,
  exactly as when the kind is disabled. \<^verbatim>\<open>Close\<close> of an open segment skips the purge of
  a nil cache, purges the other one if it is there, and still closes the underlying
  segment. \<^verbatim>\<open>CachedSearchPatterns\<close> with a nil search cache reports that searches are
  disabled and does nothing else. No call is ever made on a nil handle.
\<close>

theorem nil_caches_are_safe:
  "(SegmentPostingsListCache (reader_caches s) = None \<longrightarrow>
      pass_through (MatchRegexp s field c w) (R_MatchRegexp field c)
        (MatchRegexp_u (reader s) field c) w
      \<and> pass_through (MatchTerm s field term w) (R_MatchTerm field term)
        (MatchTerm_u (reader s) field term) w
      \<and> pass_through (MatchField s field w) (R_MatchField field)
        (MatchField_u (reader s) field) w)
   \<and> (SearchPostingsListCache (reader_caches s) = None \<longrightarrow>
      Search s query searcher w = searcher s w)
   \<and> (\<not> closed r \<and> SegmentPostingsListCache (caches r) = None
        \<and> SearchPostingsListCache (caches r) = None \<longrightarrow>
      Close r w =
        (Close_seg (segment r), r\<lparr>closed := True\<rparr>,
         emit (Segment_Call S_Close) (emit Set_closed w)))
   \<and> (\<not> closed r \<and> SegmentPostingsListCache (caches r) = None
        \<and> SearchPostingsListCache (caches r) = Some a \<longrightarrow>
      Close r w =
        (Close_seg (segment r), r\<lparr>closed := True\<rparr>,
         emit (Segment_Call S_Close) (snd (PurgeSegment a (uuid r) (emit Set_closed w)))))
   \<and> (\<not> closed r \<and> SegmentPostingsListCache (caches r) = Some a
        \<and> SearchPostingsListCache (caches r) = None \<longrightarrow>
      Close r w =
        (Close_seg (segment r), r\<lparr>closed := True\<rparr>,
         emit (Segment_Call S_Close) (snd (PurgeSegment a (uuid r) (emit Set_closed w)))))
   \<and> (SearchPostingsListCache (caches r) = None \<longrightarrow>
      CacheSearchesDisabled (fst (CachedSearchPatterns r fn w))
      \<and> snd (CachedSearchPatterns r fn w) = w)"
proof (intro conjI impI)
  assume "SegmentPostingsListCache (reader_caches s) = None"
  then have off: "caching_regexp s = None" "caching_terms s = None"
    by (simp_all add: caching_regexp_def caching_terms_def)
  from off show "pass_through (MatchRegexp s field c w) (R_MatchRegexp field c)
      (MatchRegexp_u (reader s) field c) w"
    by (simp add: MatchRegexp_bypass underlying_pass_through)
  from off show "pass_through (MatchTerm s field term w) (R_MatchTerm field term)
      (MatchTerm_u (reader s) field term) w"
    by (simp add: MatchTerm_bypass underlying_pass_through)
  from off show "pass_through (MatchField s field w) (R_MatchField field)
      (MatchField_u (reader s) field) w"
    by (simp add: MatchField_bypass underlying_pass_through)
next
  assume "SearchPostingsListCache (reader_caches s) = None"
  then have "caching_searches s = None"
    by (simp add: caching_searches_def)
  then show "Search s query searcher w = searcher s w"
    by (rule Search_bypass)
next
  assume "\<not> closed r \<and> SegmentPostingsListCache (caches r) = None
      \<and> SearchPostingsListCache (caches r) = None"
  then show "Close r w =
      (Close_seg (segment r), r\<lparr>closed := True\<rparr>,
       emit (Segment_Call S_Close) (emit Set_closed w))"
    by (simp add: Close_open purge_if_present_def)
next
  assume "\<not> closed r \<and> SegmentPostingsListCache (caches r) = None
      \<and> SearchPostingsListCache (caches r) = Some a"
  then show "Close r w =
      (Close_seg (segment r), r\<lparr>closed := True\<rparr>,
       emit (Segment_Call S_Close) (snd (PurgeSegment a (uuid r) (emit Set_closed w))))"
    by (simp add: Close_open purge_if_present_def)
next
  assume "\<not> closed r \<and> SegmentPostingsListCache (caches r) = Some a
      \<and> SearchPostingsListCache (caches r) = None"
  then show "Close r w =
      (Close_seg (segment r), r\<lparr>closed := True\<rparr>,
       emit (Segment_Call S_Close) (snd (PurgeSegment a (uuid r) (emit Set_closed w))))"
    by (simp add: Close_open purge_if_present_def)
next
  assume n: "SearchPostingsListCache (caches r) = None"
  from n show "CacheSearchesDisabled (fst (CachedSearchPatterns r fn w))"
    by (simp add: CachedSearchPatterns_def)
  from n show "snd (CachedSearchPatterns r fn w) = w"
    by (simp add: CachedSearchPatterns_def)
qed

text \<open>
  The example with both handles nil, over caches that hold wrong entries: the answers are
  those of the underlying reader, and closing only writes the flag and closes the
  underlying segment, which reports its failure.
\<close>

theorem nil_caches_are_safe_witness:
  "pass_through
     (MatchTerm (example_rts_reader\<lparr>reader_caches := no_caches\<rparr>) ''color'' ''red'' stale_world)
     (R_MatchTerm ''color'' ''red'') (List [1, 2] 16, None) stale_world
   \<and> Search (example_rts_reader\<lparr>reader_caches := no_caches\<rparr>) (Query 0 ''color:red'')
       (term_searcher ''color'' ''red'') stale_world
     = term_searcher ''color'' ''red'' (example_rts_reader\<lparr>reader_caches := no_caches\<rparr>)
         stale_world
   \<and> Close (example_rts\<lparr>caches := no_caches\<rparr>) stale_world
     = (Some (errUnderlying ''munmap failed''), example_rts\<lparr>caches := no_caches, closed := True\<rparr>,
        stale_world\<lparr>trace := [Set_closed, Segment_Call S_Close]\<rparr>)
   \<and> CacheSearchesDisabled
       (fst (CachedSearchPatterns (example_rts\<lparr>caches := no_caches\<rparr>) (\<lambda>p w. w) stale_world))"
  using nil_caches_are_safe [of "example_rts_reader\<lparr>reader_caches := no_caches\<rparr>"
      "''color''" "\<lparr>FSTSyntax = syntax_Regexp ''squa.*'', FST = 1\<rparr>" stale_world
      "''red''" "Query 0 ''color:red''" "term_searcher ''color'' ''red''"
      "example_rts\<lparr>caches := no_caches\<rparr>" 0 "\<lambda>p w. w"]
  by (simp add: example_rts_reader_def newReadThroughSegmentReader_def no_caches_def
      example_reader_def example_rts_def NewReadThroughSegment_def example_segment_def
      emit_def stale_world_def)

section \<open>Inserting a search pattern directly\<close>

text \<open>
  Claim C7. \<^verbatim>\<open>PutCachedSearchPattern\<close> does nothing (the world is as it was: nothing is
  stored, no call is made, and there is no error to return) whenever the segment is
  closed, the search cache handle is nil, or \<^verbatim>\<open>CacheSearches\<close> is off. Only on an open
  segment with a non-nil search cache and \<^verbatim>\<open>CacheSearches\<close> on does it call
  \<^verbatim>\<open>PutSearch\<close> with the identifier of the segment and the query string it was given;
  that is its only effect. The entry is then present under that identifier and string
  whenever the postings list fits the budgets of the search LRU and the cache has not
  purged the identifier; if the cache has purged it, the call stores nothing.
\<close>

theorem PutCachedSearchPattern_guards:
  "(closed r \<or> SearchPostingsListCache (caches r) = None \<or> \<not> CacheSearches (opts r) \<longrightarrow>
      PutCachedSearchPattern r queryStr query pl w = w)
   \<and> (\<not> closed r \<and> SearchPostingsListCache (caches r) = Some a \<and> CacheSearches (opts r) \<longrightarrow>
      PutCachedSearchPattern r queryStr query pl w = PutSearch a (uuid r) queryStr query pl w
      \<and> new_effects w (PutCachedSearchPattern r queryStr query pl w)
          = [Cache_Put a PatternTypeSearch (search_key (uuid r) queryStr) pl]
      \<and> (fits w a PatternTypeSearch pl \<and> unpurged w a (uuid r) \<longrightarrow>
           peek (PutCachedSearchPattern r queryStr query pl w) a PatternTypeSearch
             (search_key (uuid r) queryStr) = Some pl)
      \<and> (\<not> unpurged w a (uuid r) \<longrightarrow>
           heap (PutCachedSearchPattern r queryStr query pl w) = heap w))"
proof (intro conjI impI)
  assume "closed r \<or> SearchPostingsListCache (caches r) = None \<or> \<not> CacheSearches (opts r)"
  then show "PutCachedSearchPattern r queryStr query pl w = w"
    by (auto simp: PutCachedSearchPattern_def split: option.splits)
next
  assume on: "\<not> closed r \<and> SearchPostingsListCache (caches r) = Some a \<and> CacheSearches (opts r)"
  then show eq: "PutCachedSearchPattern r queryStr query pl w = PutSearch a (uuid r) queryStr query pl w"
    by (simp add: PutCachedSearchPattern_def)
  show "new_effects w (PutCachedSearchPattern r queryStr query pl w)
      = [Cache_Put a PatternTypeSearch (search_key (uuid r) queryStr) pl]"
    by (simp add: eq PutSearch_def heap_put_trace new_effects_def)
  show "peek (PutCachedSearchPattern r queryStr query pl w) a PatternTypeSearch
      (search_key (uuid r) queryStr) = Some pl"
    if "fits w a PatternTypeSearch pl \<and> unpurged w a (uuid r)"
    using that by (simp add: eq PutSearch_def heap_put_peek_fits)
  show "heap (PutCachedSearchPattern r queryStr query pl w) = heap w"
    if "\<not> unpurged w a (uuid r)"
    using that by (simp add: eq PutSearch_def heap_put_dropped)
qed

text \<open>
  On the open example the entry is stored in the search cache (address 1); on the closed
  example nothing happens.
\<close>

theorem PutCachedSearchPattern_guards_witness:
  "peek (PutCachedSearchPattern example_rts ''color:red'' (Query 0 ''color:red'') (List [1, 2] 16)
       example_world) 1 PatternTypeSearch (search_key 7 ''color:red'') = Some (List [1, 2] 16)
   \<and> PutCachedSearchPattern (example_rts\<lparr>closed := True\<rparr>) ''color:red'' (Query 0 ''color:red'')
       (List [1, 2] 16) example_world = example_world"
proof -
  have u: "uuid example_rts = 7"
    by (simp add: example_rts_def NewReadThroughSegment_def)
  have on: "\<not> closed example_rts \<and> SearchPostingsListCache (caches example_rts) = Some 1
      \<and> CacheSearches (opts example_rts)"
    by (simp add: example_rts_def NewReadThroughSegment_def two_caches_def all_enabled_def)
  have fit: "fits example_world 1 PatternTypeSearch (List [1, 2] 16)"
    "unpurged example_world 1 (uuid example_rts)"
    by (simp_all add: fits_def unpurged_def example_world_def example_cache_def)
  have stored: "peek (PutCachedSearchPattern example_rts ''color:red'' (Query 0 ''color:red'')
      (List [1, 2] 16) example_world) 1 PatternTypeSearch
      (search_key (uuid example_rts) ''color:red'') = Some (List [1, 2] 16)"
    using PutCachedSearchPattern_guards [of example_rts "''color:red''" "Query 0 ''color:red''"
        "List [1, 2] 16" example_world 1] on fit by blast
  have dropped: "PutCachedSearchPattern (example_rts\<lparr>closed := True\<rparr>) ''color:red''
      (Query 0 ''color:red'') (List [1, 2] 16) example_world = example_world"
    using PutCachedSearchPattern_guards [of "example_rts\<lparr>closed := True\<rparr>" "''color:red''"
        "Query 0 ''color:red''" "List [1, 2] 16" example_world 1] by simp
  from stored dropped u show ?thesis by simp
qed

section \<open>Closing a segment\<close>

lemma purge_if_present_purged: "purged (purge_if_present (Some a) u w) a u"
  by (simp add: purge_if_present_def PurgeSegment_purged)

lemma purge_if_present_keeps_purged: "purged w a u \<Longrightarrow> purged (purge_if_present h u w) a u"
  by (cases h) (simp_all add: purge_if_present_def PurgeSegment_keeps_purged)

lemma purge_if_present_peek_other:
  "key_segment k \<noteq> u \<Longrightarrow> peek (purge_if_present h u w) a t k = peek w a t k"
  by (cases h) (simp_all add: purge_if_present_def PurgeSegment_peek)

lemma Close_trace:
  "\<not> closed r \<Longrightarrow>
     trace (snd (snd (Close r w))) =
       trace w @ [Set_closed] @ purge_calls (caches r) (uuid r) @ [Segment_Call S_Close]"
  by (simp add: Close_open purge_if_present_trace purge_calls_def)

lemma Close_before_release:
  assumes "\<not> closed r"
    and "SegmentPostingsListCache (caches r) = Some a \<or> SearchPostingsListCache (caches r) = Some a"
  shows "purged (purge_if_present (SearchPostingsListCache (caches r)) (uuid r)
           (purge_if_present (SegmentPostingsListCache (caches r)) (uuid r)
              (emit Set_closed w))) a (uuid r)"
  using assms(2)
proof
  assume "SegmentPostingsListCache (caches r) = Some a"
  then show ?thesis
    by (simp add: purge_if_present_purged purge_if_present_keeps_purged)
next
  assume "SearchPostingsListCache (caches r) = Some a"
  then show ?thesis
    by (simp add: purge_if_present_purged)
qed

lemma Close_purged:
  assumes "\<not> closed r"
    and "SegmentPostingsListCache (caches r) = Some a \<or> SearchPostingsListCache (caches r) = Some a"
  shows "purged (snd (snd (Close r w))) a (uuid r)"
  using Close_before_release [OF assms] assms(1) by (simp add: Close_open)

text \<open>
  The purges of \<^verbatim>\<open>Close\<close> also leave their mark: a cache that the segment was purged
  from drops every later insertion under the segment's identifier, so a reader obtained
  before the close cannot bring an entry back.
\<close>

lemma PurgeSegment_keeps_mark:
  "\<not> unpurged w a u \<Longrightarrow> \<not> unpurged (snd (PurgeSegment a' u' w)) a u"
  by (auto simp: PurgeSegment_def cache_purge_segment_def unpurged_def)

lemma purge_if_present_keeps_mark:
  "\<not> unpurged w a u \<Longrightarrow> \<not> unpurged (purge_if_present h u' w) a u"
  by (cases h) (simp_all add: purge_if_present_def PurgeSegment_keeps_mark)

lemma Close_marks:
  assumes "\<not> closed r"
    and "SegmentPostingsListCache (caches r) = Some a \<or> SearchPostingsListCache (caches r) = Some a"
  shows "\<not> unpurged (snd (snd (Close r w))) a (uuid r)"
  using assms(2)
proof
  assume "SegmentPostingsListCache (caches r) = Some a"
  then have "\<not> unpurged (purge_if_present (SegmentPostingsListCache (caches r)) (uuid r)
      (emit Set_closed w)) a (uuid r)"
    by (simp add: purge_if_present_def PurgeSegment_marks)
  then show ?thesis
    using assms(1) by (simp add: Close_open purge_if_present_keeps_mark)
next
  assume "SearchPostingsListCache (caches r) = Some a"
  then show ?thesis
    using assms(1) by (simp add: Close_open purge_if_present_def PurgeSegment_marks)
qed

lemma put_after_Close_is_dropped:
  assumes "\<not> closed r"
    and "SegmentPostingsListCache (caches r) = Some a \<or> SearchPostingsListCache (caches r) = Some a"
    and "key_segment k = uuid r"
  shows "heap (heap_put a t k v (snd (snd (Close r w)))) = heap (snd (snd (Close r w)))"
  using Close_marks [OF assms(1,2)] assms(3) by (simp add: heap_put_dropped)

text \<open>
  Claim C2. \<^verbatim>\<open>Close\<close> on a segment that is not closed marks the segment closed, then
  purges the entries of the segment's identifier from the segment cache and then from the
  search cache (each when its handle is non-nil), and only then calls \<^verbatim>\<open>Close\<close> on the
  underlying segment, whose result it returns: the trace grows by exactly these effects
  in this order, and the world on which the underlying segment is closed is already
  purged. Afterwards no entry of that identifier is left in either cache, for any kind and
  any key, while the entries of other segments are as they were.
\<close>

theorem Close_purges_then_closes:
  "\<not> closed r \<Longrightarrow>
     fst (snd (Close r w)) = r\<lparr>closed := True\<rparr>
     \<and> fst (Close r w) = Close_seg (segment r)
     \<and> new_effects w (snd (snd (Close r w)))
         = [Set_closed] @ purge_calls (caches r) (uuid r) @ [Segment_Call S_Close]
     \<and> (\<exists>w2. snd (snd (Close r w)) = emit (Segment_Call S_Close) w2
          \<and> (\<forall>a. SegmentPostingsListCache (caches r) = Some a
                   \<or> SearchPostingsListCache (caches r) = Some a \<longrightarrow> purged w2 a (uuid r)))
     \<and> (\<forall>a t k. (SegmentPostingsListCache (caches r) = Some a
                   \<or> SearchPostingsListCache (caches r) = Some a)
                 \<and> key_segment k = uuid r \<longrightarrow> peek (snd (snd (Close r w))) a t k = None)
     \<and> (\<forall>a t k. key_segment k \<noteq> uuid r \<longrightarrow>
           peek (snd (snd (Close r w))) a t k = peek w a t k)"
proof (intro conjI allI impI)
  assume op: "\<not> closed r"
  show "fst (snd (Close r w)) = r\<lparr>closed := True\<rparr>"
    using op by (simp add: Close_open)
  show "fst (Close r w) = Close_seg (segment r)"
    using op by (simp add: Close_open)
  show "new_effects w (snd (snd (Close r w)))
      = [Set_closed] @ purge_calls (caches r) (uuid r) @ [Segment_Call S_Close]"
    using op by (simp add: Close_trace new_effects_def)
  show "\<exists>w2. snd (snd (Close r w)) = emit (Segment_Call S_Close) w2
      \<and> (\<forall>a. SegmentPostingsListCache (caches r) = Some a
               \<or> SearchPostingsListCache (caches r) = Some a \<longrightarrow> purged w2 a (uuid r))"
    using op Close_before_release [OF op, of _ w]
    by (intro exI [of _ "purge_if_present (SearchPostingsListCache (caches r)) (uuid r)
          (purge_if_present (SegmentPostingsListCache (caches r)) (uuid r)
             (emit Set_closed w))"]) (simp add: Close_open)
  show "peek (snd (snd (Close r w))) a t k = None"
    if "(SegmentPostingsListCache (caches r) = Some a
          \<or> SearchPostingsListCache (caches r) = Some a) \<and> key_segment k = uuid r" for a t k
    using that Close_purged [OF op, of a w] purged_peek by blast
  show "peek (snd (snd (Close r w))) a t k = peek w a t k"
    if "key_segment k \<noteq> uuid r" for a t k
    using that op by (simp add: Close_open purge_if_present_peek_other)
qed

text \<open>
  The example over caches that hold entries of its identifier 7: closing it purges cache
  0, then cache 1, then closes the underlying segment, and the term entry is gone.
\<close>

theorem Close_purges_then_closes_witness:
  "peek stale_world 0 PatternTypeTerm (Key 7 ''color'' ''red'') = Some (List [99] 8)
   \<and> fst (Close example_rts stale_world) = Some (errUnderlying ''munmap failed'')
   \<and> closed (fst (snd (Close example_rts stale_world)))
   \<and> new_effects stale_world (snd (snd (Close example_rts stale_world)))
       = [Set_closed, Cache_PurgeSegment 0 7, Cache_PurgeSegment 1 7, Segment_Call S_Close]
   \<and> peek (snd (snd (Close example_rts stale_world))) 0 PatternTypeTerm (Key 7 ''color'' ''red'')
       = None"
proof -
  have op: "\<not> closed example_rts"
    by (simp add: example_rts_def NewReadThroughSegment_def)
  have before: "peek stale_world 0 PatternTypeTerm (Key 7 ''color'' ''red'') = Some (List [99] 8)"
    by (simp add: peek_def cache_peek_def lru_peek_def stale_world_def stale_cache_def)
  have ex: "uuid example_rts = 7" "caches example_rts = two_caches"
    "Close_seg (segment example_rts) = Some (errUnderlying ''munmap failed'')"
    by (simp_all add: example_rts_def NewReadThroughSegment_def example_segment_def)
  note c = Close_purges_then_closes [OF op, of stale_world]
  from c have "fst (Close example_rts stale_world) = Some (errUnderlying ''munmap failed'')"
    using ex by simp
  moreover from c have "closed (fst (snd (Close example_rts stale_world)))"
    by simp
  moreover from c have "new_effects stale_world (snd (snd (Close example_rts stale_world)))
      = [Set_closed, Cache_PurgeSegment 0 7, Cache_PurgeSegment 1 7, Segment_Call S_Close]"
    using ex by (simp add: purge_calls_def two_caches_def)
  moreover from c have "peek (snd (snd (Close example_rts stale_world))) 0 PatternTypeTerm
      (Key 7 ''color'' ''red'') = None"
    using ex by (simp add: two_caches_def)
  ultimately show ?thesis using before by simp
qed

section \<open>The closed flag never goes back\<close>

lemma step_keeps_closed: "closed (fst st) \<Longrightarrow> closed (fst (step op st))"
  by (cases st; cases op) (simp_all add: Close_def)

lemma run_keeps_closed: "closed (fst st) \<Longrightarrow> closed (fst (run ops st))"
  unfolding run_def
proof (induction ops arbitrary: st)
  case Nil
  then show ?case by simp
next
  case (Cons op ops)
  then show ?case by (simp add: step_keeps_closed)
qed

text \<open>
  Claim C9. The closed flag is monotone, and \<^verbatim>\<open>Close\<close> sets it before anything that can
  fail. Whatever the underlying segment's \<^verbatim>\<open>Close\<close> returns (an error included, which
  is returned), an open segment is closed by \<^verbatim>\<open>Close\<close> and its caches are purged; and
  after any further sequence of operations the flag is still set, \<^verbatim>\<open>Reader\<close> fails with
  the error of a closed segment and \<^verbatim>\<open>Close\<close> fails with the error of an already closed
  segment. In general no sequence of operations on a closed segment opens it again.
\<close>

theorem closed_is_monotone:
  "(closed r \<longrightarrow> closed (fst (run ops (r, w))))
   \<and> (\<not> closed r \<longrightarrow>
        fst (Close r w) = Close_seg (segment r)
        \<and> closed (fst (snd (Close r w)))
        \<and> (\<forall>a. SegmentPostingsListCache (caches r) = Some a
                 \<or> SearchPostingsListCache (caches r) = Some a \<longrightarrow>
               purged (snd (snd (Close r w))) a (uuid r))
        \<and> closed (fst (run ops (snd (Close r w))))
        \<and> fst (Reader (fst (run ops (snd (Close r w)))) (snd (run ops (snd (Close r w)))))
            = (None, Some errCantGetReaderFromClosedSegment)
        \<and> fst (Close (fst (run ops (snd (Close r w)))) (snd (run ops (snd (Close r w)))))
            = Some errCantCloseClosedSegment)"
proof (intro conjI impI allI)
  assume "closed r"
  then show "closed (fst (run ops (r, w)))"
    by (simp add: run_keeps_closed)
next
  assume op: "\<not> closed r"
  show "fst (Close r w) = Close_seg (segment r)"
    using op by (simp add: Close_open)
  show c: "closed (fst (snd (Close r w)))"
    using op by (simp add: Close_open)
  show "purged (snd (snd (Close r w))) a (uuid r)"
    if "SegmentPostingsListCache (caches r) = Some a \<or> SearchPostingsListCache (caches r) = Some a"
    for a
    using that op by (rule Close_purged [rotated])
  show later: "closed (fst (run ops (snd (Close r w))))"
    using c by (rule run_keeps_closed)
  show "fst (Reader (fst (run ops (snd (Close r w)))) (snd (run ops (snd (Close r w)))))
      = (None, Some errCantGetReaderFromClosedSegment)"
    using later by (simp add: Reader_def)
  show "fst (Close (fst (run ops (snd (Close r w)))) (snd (run ops (snd (Close r w)))))
      = Some errCantCloseClosedSegment"
    using later by (simp add: Close_def)
qed

text \<open>
  The underlying segment of the example fails to close; the segment is closed all the
  same, and stays so through a reader request, a second close, a term query on a reader
  obtained earlier and a direct insertion.
\<close>

theorem closed_is_monotone_witness:
  "fst (Close example_rts stale_world) = Some (errUnderlying ''munmap failed'')
   \<and> closed (fst (snd (Close example_rts stale_world)))
   \<and> closed (fst (run [Op_Reader, Op_Close, Op_MatchTerm example_rts_reader ''color'' ''red'',
        Op_PutCachedSearchPattern ''color:red'' (Query 0 ''color:red'') (List [1, 2] 16)]
        (snd (Close example_rts stale_world))))
   \<and> fst (Reader
        (fst (run [Op_Reader, Op_Close, Op_MatchTerm example_rts_reader ''color'' ''red'',
           Op_PutCachedSearchPattern ''color:red'' (Query 0 ''color:red'') (List [1, 2] 16)]
           (snd (Close example_rts stale_world))))
        (snd (run [Op_Reader, Op_Close, Op_MatchTerm example_rts_reader ''color'' ''red'',
           Op_PutCachedSearchPattern ''color:red'' (Query 0 ''color:red'') (List [1, 2] 16)]
           (snd (Close example_rts stale_world)))))
       = (None, Some errCantGetReaderFromClosedSegment)"
  using closed_is_monotone [of example_rts
      "[Op_Reader, Op_Close, Op_MatchTerm example_rts_reader ''color'' ''red'',
        Op_PutCachedSearchPattern ''color:red'' (Query 0 ''color:red'') (List [1, 2] 16)]"
      stale_world]
  by (simp add: example_rts_def NewReadThroughSegment_def example_segment_def)

section \<open>The cached branches\<close>

lemma MatchRegexp_cached:
  "caching_regexp s = Some a \<Longrightarrow>
     MatchRegexp s field c w =
       read_through a PatternTypeRegexp (MatchRegexp_key s field c) (R_MatchRegexp field c)
         (MatchRegexp_u (reader s) field c) w"
  unfolding MatchRegexp_def read_through_def MatchRegexp_key_def GetRegexp_def PutRegexp_def Let_def
  by (simp add: caching_regexp_def split: option.splits if_splits)

lemma MatchTerm_cached:
  "caching_terms s = Some a \<Longrightarrow>
     MatchTerm s field term w =
       read_through a PatternTypeTerm (MatchTerm_key s field term) (R_MatchTerm field term)
         (MatchTerm_u (reader s) field term) w"
  unfolding MatchTerm_def read_through_def MatchTerm_key_def GetTerm_def PutTerm_def Let_def
  by (simp add: caching_terms_def split: option.splits if_splits)

lemma MatchField_cached:
  "caching_terms s = Some a \<Longrightarrow>
     MatchField s field w =
       read_through a PatternTypeField (MatchField_key s field) (R_MatchField field)
         (MatchField_u (reader s) field) w"
  unfolding MatchField_def read_through_def MatchField_key_def GetField_def PutField_def Let_def
  by (simp add: caching_terms_def split: option.splits if_splits)

lemma read_through_hit:
  assumes "peek w a t k = Some pl"
  shows "read_through a t k call answer w = ((pl, None), snd (heap_get a t k w))"
proof -
  have "fst (heap_get a t k w) = Some pl"
    using assms by (simp add: heap_get_fst)
  then show ?thesis
    by (cases "heap_get a t k w") (simp add: read_through_def)
qed

lemma read_through_miss_ok:
  assumes "peek w a t k = None" and "answer = (pl, None)"
  shows "read_through a t k call answer w =
    ((pl, None), heap_put a t k pl (emit (Reader_Call call) (emit (Cache_Get a t k) w)))"
  using assms by (simp add: read_through_def heap_get_miss underlying_def)

lemma read_through_miss_err:
  assumes "peek w a t k = None" and "answer = (pl, Some e)"
  shows "read_through a t k call answer w =
    ((pl, Some e), emit (Reader_Call call) (emit (Cache_Get a t k) w))"
  using assms by (simp add: read_through_def heap_get_miss underlying_def)

lemma read_through_result:
  "fst (read_through a t k call answer w) =
     (case peek w a t k of Some pl \<Rightarrow> (pl, None) | None \<Rightarrow> answer)"
proof (cases "peek w a t k")
  case None
  then show ?thesis
    by (cases answer; cases "snd answer")
      (simp_all add: read_through_miss_ok read_through_miss_err)
next
  case (Some pl)
  then show ?thesis by (simp add: read_through_hit)
qed

lemma read_through_effects:
  "new_effects w (snd (read_through a t k call answer w)) =
     (case peek w a t k of
        Some pl \<Rightarrow> [Cache_Get a t k]
      | None \<Rightarrow>
          (case snd answer of
             None \<Rightarrow> [Cache_Get a t k, Reader_Call call, Cache_Put a t k (fst answer)]
           | Some e \<Rightarrow> [Cache_Get a t k, Reader_Call call]))"
proof (cases "peek w a t k")
  case None
  then show ?thesis
    by (cases answer; cases "snd answer")
      (simp_all add: read_through_miss_ok read_through_miss_err new_effects_def heap_put_trace)
next
  case (Some pl)
  then show ?thesis
    by (simp add: read_through_hit new_effects_def heap_get_trace)
qed

lemma read_through_agrees:
  assumes "agrees (peek w a t k) answer"
  shows "fst (read_through a t k call answer w) = answer"
    and "agrees (peek (snd (read_through a t k call answer w)) a t k) answer"
proof -
  show "fst (read_through a t k call answer w) = answer"
    using assms by (simp add: read_through_result agrees_def split: option.splits)
  show "agrees (peek (snd (read_through a t k call answer w)) a t k) answer"
  proof (cases "peek w a t k")
    case (Some pl)
    then show ?thesis
      using assms by (simp add: read_through_hit heap_get_peek)
  next
    case None
    show ?thesis
    proof (cases "snd answer")
      case (Some e)
      then have "answer = (fst answer, Some e)" by (cases answer) simp
      then show ?thesis
        using None read_through_miss_err [of w a t k answer "fst answer" e call]
        by (simp add: agrees_def)
    next
      case n: None
      then have ok: "answer = (fst answer, None)" by (cases answer) simp
      have "read_through a t k call answer w =
          ((fst answer, None),
           heap_put a t k (fst answer) (emit (Reader_Call call) (emit (Cache_Get a t k) w)))"
        using None ok by (rule read_through_miss_ok)
      then show ?thesis
        using heap_put_peek_same [of "emit (Reader_Call call) (emit (Cache_Get a t k) w)"
            a t k "fst answer"] ok None
        by (auto simp: agrees_def)
    qed
  qed
qed

lemma read_through_error_keeps_entries:
  assumes "snd answer = Some e"
  shows "peek (snd (read_through a t k call answer w)) a' t' k' = peek w a' t' k'"
proof (cases "peek w a t k")
  case None
  from assms have "answer = (fst answer, Some e)" by (cases answer) simp
  then show ?thesis
    using None read_through_miss_err [of w a t k answer "fst answer" e call] by simp
next
  case (Some pl)
  then show ?thesis by (simp add: read_through_hit heap_get_peek)
qed

lemma read_through_warm:
  assumes "peek w a t k = None" and "answer = (pl, None)" and "fits w a t pl"
    and "unpurged w a (key_segment k)"
  shows "peek (snd (read_through a t k call answer w)) a t k = Some pl"
  using assms by (simp add: read_through_miss_ok heap_put_peek_fits)

lemma underlying_effects: "new_effects w (snd (underlying c answer w)) = [Reader_Call c]"
  by (simp add: underlying_def new_effects_def)

lemma underlying_peek: "peek (snd (underlying c answer w)) a t k = peek w a t k"
  by (simp add: underlying_def)

section \<open>The cached branch of a search\<close>

lemma Search_cached:
  "caching_searches s = Some a \<Longrightarrow>
     Search s query searcher w =
       (case heap_get a PatternTypeSearch (Search_key s query) w of
          (Some pl, w1) \<Rightarrow> ((pl, None), w1)
        | (None, w1) \<Rightarrow>
            (case searcher s w1 of
               ((pl, Some err), w2) \<Rightarrow> ((nil_List, Some err), w2)
             | ((pl, None), w2) \<Rightarrow>
                 ((pl, None), heap_put a PatternTypeSearch (Search_key s query) pl w2)))"
  unfolding Search_def Search_key_def GetSearch_def PutSearch_def Let_def
  by (simp add: caching_searches_def split: option.splits if_splits)

lemma Search_hit:
  assumes "caching_searches s = Some a"
    and "peek w a PatternTypeSearch (Search_key s query) = Some pl"
  shows "Search s query searcher w =
    ((pl, None), snd (heap_get a PatternTypeSearch (Search_key s query) w))"
proof -
  have "fst (heap_get a PatternTypeSearch (Search_key s query) w) = Some pl"
    using assms(2) by (simp add: heap_get_fst)
  then show ?thesis
    by (cases "heap_get a PatternTypeSearch (Search_key s query) w")
      (simp add: Search_cached [OF assms(1)])
qed

lemma Search_miss_ok:
  assumes "caching_searches s = Some a"
    and "peek w a PatternTypeSearch (Search_key s query) = None"
    and "searcher s (emit (Cache_Get a PatternTypeSearch (Search_key s query)) w) = ((pl, None), w2)"
  shows "Search s query searcher w =
    ((pl, None), heap_put a PatternTypeSearch (Search_key s query) pl w2)"
  using assms(2,3) by (simp add: Search_cached [OF assms(1)] heap_get_miss)

lemma Search_miss_err:
  assumes "caching_searches s = Some a"
    and "peek w a PatternTypeSearch (Search_key s query) = None"
    and "searcher s (emit (Cache_Get a PatternTypeSearch (Search_key s query)) w) = ((pl, Some e), w2)"
  shows "Search s query searcher w = ((nil_List, Some e), w2)"
  using assms(2,3) by (simp add: Search_cached [OF assms(1)] heap_get_miss)

section \<open>Errors of the underlying reader and of the searcher\<close>

lemma read_through_error:
  assumes "snd answer = Some e"
  shows "\<not> list_ex is_put (new_effects w (snd (read_through a t k call answer w)))
    \<and> (\<forall>a' t' k'. peek (snd (read_through a t k call answer w)) a' t' k' = peek w a' t' k')
    \<and> (peek w a t k = None \<longrightarrow> fst (read_through a t k call answer w) = answer)"
  using assms read_through_error_keeps_entries [OF assms]
  by (cases "peek w a t k") (simp_all add: read_through_effects read_through_result)

lemma underlying_error:
  "\<not> list_ex is_put (new_effects w (snd (underlying call answer w)))
    \<and> (\<forall>a' t' k'. peek (snd (underlying call answer w)) a' t' k' = peek w a' t' k')
    \<and> fst (underlying call answer w) = answer"
  by (simp add: underlying_effects underlying_peek) (simp add: underlying_def)

lemma MatchRegexp_error:
  assumes "snd (MatchRegexp_u (reader s) field c) = Some e"
  shows "\<not> list_ex is_put (new_effects w (snd (MatchRegexp s field c w)))
    \<and> (\<forall>a' t k. peek (snd (MatchRegexp s field c w)) a' t k = peek w a' t k)
    \<and> (caching_regexp s = None \<longrightarrow>
         fst (MatchRegexp s field c w) = MatchRegexp_u (reader s) field c)
    \<and> (caching_regexp s = Some a
         \<and> peek w a PatternTypeRegexp (MatchRegexp_key s field c) = None \<longrightarrow>
         fst (MatchRegexp s field c w) = MatchRegexp_u (reader s) field c)"
proof (cases "caching_regexp s")
  case None
  show ?thesis
    unfolding MatchRegexp_bypass [OF None] using None underlying_error by simp
next
  case (Some a')
  show ?thesis
    unfolding MatchRegexp_cached [OF Some]
    using Some read_through_error [OF assms, of w a' PatternTypeRegexp] by auto
qed

lemma MatchTerm_error:
  assumes "snd (MatchTerm_u (reader s) field term) = Some e"
  shows "\<not> list_ex is_put (new_effects w (snd (MatchTerm s field term w)))
    \<and> (\<forall>a' t k. peek (snd (MatchTerm s field term w)) a' t k = peek w a' t k)
    \<and> (caching_terms s = None \<longrightarrow>
         fst (MatchTerm s field term w) = MatchTerm_u (reader s) field term)
    \<and> (caching_terms s = Some a
         \<and> peek w a PatternTypeTerm (MatchTerm_key s field term) = None \<longrightarrow>
         fst (MatchTerm s field term w) = MatchTerm_u (reader s) field term)"
proof (cases "caching_terms s")
  case None
  show ?thesis
    unfolding MatchTerm_bypass [OF None] using None underlying_error by simp
next
  case (Some a')
  show ?thesis
    unfolding MatchTerm_cached [OF Some]
    using Some read_through_error [OF assms, of w a' PatternTypeTerm] by auto
qed

lemma MatchField_error:
  assumes "snd (MatchField_u (reader s) field) = Some e"
  shows "\<not> list_ex is_put (new_effects w (snd (MatchField s field w)))
    \<and> (\<forall>a' t k. peek (snd (MatchField s field w)) a' t k = peek w a' t k)
    \<and> (caching_terms s = None \<longrightarrow>
         fst (MatchField s field w) = MatchField_u (reader s) field)
    \<and> (caching_terms s = Some a
         \<and> peek w a PatternTypeField (MatchField_key s field) = None \<longrightarrow>
         fst (MatchField s field w) = MatchField_u (reader s) field)"
proof (cases "caching_terms s")
  case None
  show ?thesis
    unfolding MatchField_bypass [OF None] using None underlying_error by simp
next
  case (Some a')
  show ?thesis
    unfolding MatchField_cached [OF Some]
    using Some read_through_error [OF assms, of w a' PatternTypeField] by auto
qed

text \<open>
  Claim C3. If the underlying reader answers a match operation with an error, then
  whenever the operation reaches it, that is when the kind is not cached or the lookup
  misses, that answer is what the caller gets, unchanged; and in every case the operation
  makes no \<^verbatim>\<open>Put\<close> call and every cache holds exactly the entries it held before.
  \<^verbatim>\<open>MatchAll\<close> hands on whatever the underlying reader answers and calls no cache at
  all. If the searcher run by \<^verbatim>\<open>Search\<close> fails, its error is returned and the world is
  left as the searcher left it: nothing is stored afterwards. So a cache is populated
  only from a successful result.
\<close>

theorem underlying_errors_are_not_cached:
  "(snd (MatchRegexp_u (reader s) field c) = Some e \<longrightarrow>
      \<not> list_ex is_put (new_effects w (snd (MatchRegexp s field c w)))
      \<and> (\<forall>a' t k. peek (snd (MatchRegexp s field c w)) a' t k = peek w a' t k)
      \<and> (caching_regexp s = None \<longrightarrow>
           fst (MatchRegexp s field c w) = MatchRegexp_u (reader s) field c)
      \<and> (caching_regexp s = Some a
           \<and> peek w a PatternTypeRegexp (MatchRegexp_key s field c) = None \<longrightarrow>
           fst (MatchRegexp s field c w) = MatchRegexp_u (reader s) field c))
   \<and> (snd (MatchTerm_u (reader s) field term) = Some e \<longrightarrow>
      \<not> list_ex is_put (new_effects w (snd (MatchTerm s field term w)))
      \<and> (\<forall>a' t k. peek (snd (MatchTerm s field term w)) a' t k = peek w a' t k)
      \<and> (caching_terms s = None \<longrightarrow>
           fst (MatchTerm s field term w) = MatchTerm_u (reader s) field term)
      \<and> (caching_terms s = Some a
           \<and> peek w a PatternTypeTerm (MatchTerm_key s field term) = None \<longrightarrow>
           fst (MatchTerm s field term w) = MatchTerm_u (reader s) field term))
   \<and> (snd (MatchField_u (reader s) field) = Some e \<longrightarrow>
      \<not> list_ex is_put (new_effects w (snd (MatchField s field w)))
      \<and> (\<forall>a' t k. peek (snd (MatchField s field w)) a' t k = peek w a' t k)
      \<and> (caching_terms s = None \<longrightarrow>
           fst (MatchField s field w) = MatchField_u (reader s) field)
      \<and> (caching_terms s = Some a
           \<and> peek w a PatternTypeField (MatchField_key s field) = None \<longrightarrow>
           fst (MatchField s field w) = MatchField_u (reader s) field))
   \<and> MatchAll s w = (MatchAll_u (reader s), emit (Reader_Call R_MatchAll) w)
   \<and> (caching_searches s = None \<and> searcher s w = ((pl, Some e), w2) \<longrightarrow>
      Search s query searcher w = ((pl, Some e), w2))
   \<and> (caching_searches s = Some b
        \<and> peek w b PatternTypeSearch (Search_key s query) = None
        \<and> searcher s (emit (Cache_Get b PatternTypeSearch (Search_key s query)) w)
            = ((pl, Some e), w2) \<longrightarrow>
      Search s query searcher w = ((nil_List, Some e), w2))"
proof -
  have "caching_searches s = None \<and> searcher s w = ((pl, Some e), w2) \<longrightarrow>
      Search s query searcher w = ((pl, Some e), w2)"
    by (simp add: Search_bypass)
  moreover have "MatchAll s w = (MatchAll_u (reader s), emit (Reader_Call R_MatchAll) w)"
    by (simp add: MatchAll_def underlying_def)
  moreover have "caching_searches s = Some b
        \<and> peek w b PatternTypeSearch (Search_key s query) = None
        \<and> searcher s (emit (Cache_Get b PatternTypeSearch (Search_key s query)) w)
            = ((pl, Some e), w2) \<longrightarrow>
      Search s query searcher w = ((nil_List, Some e), w2)"
    using Search_miss_err by blast
  ultimately show ?thesis
    using MatchRegexp_error [of s field c e w a] MatchTerm_error [of s field "term" e w a]
      MatchField_error [of s field e w a]
    by blast
qed

text \<open>
  The underlying reader of the example fails on the field \<open>broken\<close>. The term query
  misses in the empty cache, so the failure is the answer, and nothing is put; a search
  whose searcher runs that term query fails with the same error.
\<close>

theorem underlying_errors_are_not_cached_witness:
  "fst (MatchTerm example_rts_reader ''broken'' ''x'' example_world)
     = (nil_List, Some (errUnderlying ''read failed''))
   \<and> \<not> list_ex is_put (new_effects example_world
         (snd (MatchTerm example_rts_reader ''broken'' ''x'' example_world)))
   \<and> fst (Search example_rts_reader (Query 0 ''broken:x'') (term_searcher ''broken'' ''x'')
         example_world) = (nil_List, Some (errUnderlying ''read failed''))"
proof -
  let ?s = example_rts_reader
  let ?e = "errUnderlying ''read failed''"
  let ?w1 = "emit (Cache_Get 1 PatternTypeSearch (Search_key ?s (Query 0 ''broken:x''))) example_world"
  let ?w2 = "snd (term_searcher ''broken'' ''x'' ?s ?w1)"
  note c = underlying_errors_are_not_cached [where s = ?s and field = "''broken''"
      and c = "\<lparr>FSTSyntax = syntax_Regexp ''squa.*'', FST = 1\<rparr>" and e = ?e
      and w = example_world and a = 0 and b = 1 and pl = nil_List and ?w2.0 = ?w2
      and query = "Query 0 ''broken:x''" and searcher = "term_searcher ''broken'' ''x''"]
  have fails: "snd (MatchTerm_u (reader ?s) ''broken'' ''x'') = Some ?e"
    by (simp add: example_rts_reader_def newReadThroughSegmentReader_def example_reader_def)
  have answer: "MatchTerm_u (reader ?s) ''broken'' ''x'' = (nil_List, Some ?e)"
    by (simp add: example_rts_reader_def newReadThroughSegmentReader_def example_reader_def)
  have on: "caching_terms ?s = Some 0" "caching_searches ?s = Some 1"
    by (simp_all add: caching_terms_def caching_searches_def example_rts_reader_def
        newReadThroughSegmentReader_def two_caches_def all_enabled_def)
  have empty: "peek w a t k = None" if "heap w = heap example_world" for w a t k
    using that
    by (simp add: peek_def cache_peek_def lru_peek_def example_world_def example_cache_def)
  have "fst (MatchTerm ?s ''broken'' ''x'' ?w1) = (nil_List, Some ?e)"
    using fails on(1) empty [of ?w1 0] answer
      MatchTerm_error [of ?s "''broken''" "''x''" ?e ?w1 0]
    by simp
  then have run: "term_searcher ''broken'' ''x'' ?s ?w1 = ((nil_List, Some ?e), ?w2)"
    by (simp add: term_searcher_def prod_eq_iff)
  from c [of "''x''"] fails on(1) empty [of example_world 0]
  have "fst (MatchTerm ?s ''broken'' ''x'' example_world) = MatchTerm_u (reader ?s) ''broken'' ''x''"
    by blast
  then have "fst (MatchTerm ?s ''broken'' ''x'' example_world) = (nil_List, Some ?e)"
    using answer by simp
  moreover from c [of "''x''"] fails have "\<not> list_ex is_put (new_effects example_world
      (snd (MatchTerm ?s ''broken'' ''x'' example_world)))"
    by blast
  moreover from c [of "''x''"] on(2) run empty [of example_world 1]
  have "Search ?s (Query 0 ''broken:x'') (term_searcher ''broken'' ''x'') example_world
      = ((nil_List, Some ?e), ?w2)"
    by blast
  ultimately show ?thesis by simp
qed

section \<open>Read-through correctness\<close>

lemma read_through_twice:
  assumes "agrees (peek w a t k) answer"
  shows "fst (read_through a t k call answer (snd (read_through a t k call answer w))) = answer"
  using read_through_agrees(2) [OF assms] by (rule read_through_agrees(1))

text \<open>
  Claim C1. Each of \<^verbatim>\<open>MatchRegexp\<close>, \<^verbatim>\<open>MatchTerm\<close> and \<^verbatim>\<open>MatchField\<close> on a
  read-through reader returns exactly what the underlying reader returns for the same
  arguments. When the kind is not cached (disabled, or no cache) this holds in every
  world. When it is cached it holds whenever the slot of the key is empty (cold) or holds
  the list of the underlying reader's answer; the operation leaves the slot in such a
  state again, so it also holds for the identical call that follows and finds the slot
  populated by the first (warm), and for every identical call after that.
\<close>

theorem read_through_correct:
  "(caching_regexp s = None \<longrightarrow>
      fst (MatchRegexp s field c w) = MatchRegexp_u (reader s) field c)
   \<and> (caching_regexp s = Some a
        \<and> agrees (peek w a PatternTypeRegexp (MatchRegexp_key s field c))
            (MatchRegexp_u (reader s) field c) \<longrightarrow>
      fst (MatchRegexp s field c w) = MatchRegexp_u (reader s) field c
      \<and> agrees (peek (snd (MatchRegexp s field c w)) a PatternTypeRegexp (MatchRegexp_key s field c))
          (MatchRegexp_u (reader s) field c)
      \<and> fst (MatchRegexp s field c (snd (MatchRegexp s field c w)))
          = MatchRegexp_u (reader s) field c)
   \<and> (caching_terms s = None \<longrightarrow>
      fst (MatchTerm s field term w) = MatchTerm_u (reader s) field term
      \<and> fst (MatchField s field w) = MatchField_u (reader s) field)
   \<and> (caching_terms s = Some b
        \<and> agrees (peek w b PatternTypeTerm (MatchTerm_key s field term))
            (MatchTerm_u (reader s) field term) \<longrightarrow>
      fst (MatchTerm s field term w) = MatchTerm_u (reader s) field term
      \<and> agrees (peek (snd (MatchTerm s field term w)) b PatternTypeTerm (MatchTerm_key s field term))
          (MatchTerm_u (reader s) field term)
      \<and> fst (MatchTerm s field term (snd (MatchTerm s field term w)))
          = MatchTerm_u (reader s) field term)
   \<and> (caching_terms s = Some b
        \<and> agrees (peek w b PatternTypeField (MatchField_key s field))
            (MatchField_u (reader s) field) \<longrightarrow>
      fst (MatchField s field w) = MatchField_u (reader s) field
      \<and> agrees (peek (snd (MatchField s field w)) b PatternTypeField (MatchField_key s field))
          (MatchField_u (reader s) field)
      \<and> fst (MatchField s field (snd (MatchField s field w)))
          = MatchField_u (reader s) field)"
proof (intro conjI impI)
  assume "caching_regexp s = None"
  then show "fst (MatchRegexp s field c w) = MatchRegexp_u (reader s) field c"
    by (simp add: MatchRegexp_bypass underlying_def)
next
  assume h: "caching_regexp s = Some a
      \<and> agrees (peek w a PatternTypeRegexp (MatchRegexp_key s field c))
          (MatchRegexp_u (reader s) field c)"
  then have on: "caching_regexp s = Some a" by simp
  from h show "fst (MatchRegexp s field c w) = MatchRegexp_u (reader s) field c"
    by (simp add: MatchRegexp_cached [OF on] read_through_agrees)
  from h show "agrees (peek (snd (MatchRegexp s field c w)) a PatternTypeRegexp
      (MatchRegexp_key s field c)) (MatchRegexp_u (reader s) field c)"
    by (simp add: MatchRegexp_cached [OF on] read_through_agrees)
  from h show "fst (MatchRegexp s field c (snd (MatchRegexp s field c w)))
      = MatchRegexp_u (reader s) field c"
    by (simp add: MatchRegexp_cached [OF on] read_through_twice)
next
  assume off: "caching_terms s = None"
  from off show "fst (MatchTerm s field term w) = MatchTerm_u (reader s) field term"
    by (simp add: MatchTerm_bypass underlying_def)
  from off show "fst (MatchField s field w) = MatchField_u (reader s) field"
    by (simp add: MatchField_bypass underlying_def)
next
  assume h: "caching_terms s = Some b
      \<and> agrees (peek w b PatternTypeTerm (MatchTerm_key s field term))
          (MatchTerm_u (reader s) field term)"
  then have on: "caching_terms s = Some b" by simp
  from h show "fst (MatchTerm s field term w) = MatchTerm_u (reader s) field term"
    by (simp add: MatchTerm_cached [OF on] read_through_agrees)
  from h show "agrees (peek (snd (MatchTerm s field term w)) b PatternTypeTerm
      (MatchTerm_key s field term)) (MatchTerm_u (reader s) field term)"
    by (simp add: MatchTerm_cached [OF on] read_through_agrees)
  from h show "fst (MatchTerm s field term (snd (MatchTerm s field term w)))
      = MatchTerm_u (reader s) field term"
    by (simp add: MatchTerm_cached [OF on] read_through_twice)
next
  assume h: "caching_terms s = Some b
      \<and> agrees (peek w b PatternTypeField (MatchField_key s field))
          (MatchField_u (reader s) field)"
  then have on: "caching_terms s = Some b" by simp
  from h show "fst (MatchField s field w) = MatchField_u (reader s) field"
    by (simp add: MatchField_cached [OF on] read_through_agrees)
  from h show "agrees (peek (snd (MatchField s field w)) b PatternTypeField
      (MatchField_key s field)) (MatchField_u (reader s) field)"
    by (simp add: MatchField_cached [OF on] read_through_agrees)
  from h show "fst (MatchField s field (snd (MatchField s field w)))
      = MatchField_u (reader s) field"
    by (simp add: MatchField_cached [OF on] read_through_twice)
qed

text \<open>
  The first scenario of the spec: on the empty caches the term query for color red misses
  and returns documents 1 and 2; the identical second call returns them again, this time
  from the cache, its only effect being the lookup.
\<close>

theorem read_through_correct_witness:
  "fst (MatchTerm example_rts_reader ''color'' ''red'' example_world) = (List [1, 2] 16, None)
   \<and> fst (MatchTerm example_rts_reader ''color'' ''red''
        (snd (MatchTerm example_rts_reader ''color'' ''red'' example_world)))
       = (List [1, 2] 16, None)
   \<and> new_effects (snd (MatchTerm example_rts_reader ''color'' ''red'' example_world))
        (snd (MatchTerm example_rts_reader ''color'' ''red''
           (snd (MatchTerm example_rts_reader ''color'' ''red'' example_world))))
       = [Cache_Get 0 PatternTypeTerm (Key 7 ''color'' ''red'')]"
proof -
  let ?s = example_rts_reader
  let ?k = "MatchTerm_key ?s ''color'' ''red''"
  let ?w1 = "snd (MatchTerm ?s ''color'' ''red'' example_world)"
  have k: "?k = Key 7 ''color'' ''red''"
    by (simp add: MatchTerm_key_def term_key_def go_string_def example_rts_reader_def
        newReadThroughSegmentReader_def)
  have answer: "MatchTerm_u (reader ?s) ''color'' ''red'' = (List [1, 2] 16, None)"
    by (simp add: example_rts_reader_def newReadThroughSegmentReader_def example_reader_def)
  have on: "caching_regexp ?s = Some 0" "caching_terms ?s = Some 0"
    by (simp_all add: caching_regexp_def caching_terms_def example_rts_reader_def
        newReadThroughSegmentReader_def two_caches_def all_enabled_def)
  have cold: "peek example_world 0 PatternTypeTerm ?k = None"
    by (simp add: peek_def cache_peek_def lru_peek_def example_world_def example_cache_def)
  then have ag: "agrees (peek example_world 0 PatternTypeTerm ?k)
      (MatchTerm_u (reader ?s) ''color'' ''red'')"
    by (simp add: agrees_def)
  have fit: "fits example_world 0 PatternTypeTerm (List [1, 2] 16)"
    "unpurged example_world 0 (key_segment ?k)"
    by (simp_all add: fits_def unpurged_def example_world_def example_cache_def)
  note c = read_through_correct [of ?s "''color''"
      "\<lparr>FSTSyntax = syntax_Regexp ''squa.*'', FST = 1\<rparr>" example_world 0 "''red''" 0]
  from c on(2) ag have "fst (MatchTerm ?s ''color'' ''red'' example_world)
      = MatchTerm_u (reader ?s) ''color'' ''red''"
    by blast
  moreover from c on(2) ag have "fst (MatchTerm ?s ''color'' ''red'' ?w1)
      = MatchTerm_u (reader ?s) ''color'' ''red''"
    by blast
  moreover have "peek ?w1 0 PatternTypeTerm ?k = Some (List [1, 2] 16)"
    using cold answer fit by (simp add: MatchTerm_cached [OF on(2)] read_through_warm)
  then have "new_effects ?w1 (snd (MatchTerm ?s ''color'' ''red'' ?w1))
      = [Cache_Get 0 PatternTypeTerm ?k]"
    by (simp add: MatchTerm_cached [OF on(2)] read_through_effects)
  ultimately show ?thesis
    using answer k by simp
qed

section \<open>The keys of the cache\<close>

text \<open>
  Claim C6. The keys are the canonical strings. \<^verbatim>\<open>MatchRegexp\<close> looks up and stores
  under the field and the \<^verbatim>\<open>String()\<close> of the FST syntax of the compiled expression:
  a hit returns what that slot holds, a successful miss stores the answer in that slot,
  and so, in a cache that has not purged the segment, a second compiled expression with
  the same FST syntax is served from the slot the first one filled, whatever else it is
  made of. \<^verbatim>\<open>Search\<close> looks up and stores
  under the \<^verbatim>\<open>String()\<close> of the query: a hit returns what that slot holds without
  running the searcher, a successful miss stores the searcher's list in that slot, and so,
  in a cache that has not purged the segment, a second search whose query has the same
  string is served from it, whichever searcher it comes with.
\<close>

theorem cache_keys_are_canonical:
  "(caching_regexp s = Some a
      \<and> peek w a PatternTypeRegexp
          (regexp_key (reader_uuid s) (go_string field) (Regexp_String (FSTSyntax c))) = Some pl
      \<longrightarrow> fst (MatchRegexp s field c w) = (pl, None)
        \<and> new_effects w (snd (MatchRegexp s field c w))
            = [Cache_Get a PatternTypeRegexp
                 (regexp_key (reader_uuid s) (go_string field) (Regexp_String (FSTSyntax c)))])
   \<and> (caching_regexp s = Some a
      \<and> peek w a PatternTypeRegexp
          (regexp_key (reader_uuid s) (go_string field) (Regexp_String (FSTSyntax c))) = None
      \<and> MatchRegexp_u (reader s) field c = (pl, None)
      \<longrightarrow> new_effects w (snd (MatchRegexp s field c w))
            = [Cache_Get a PatternTypeRegexp
                 (regexp_key (reader_uuid s) (go_string field) (Regexp_String (FSTSyntax c))),
               Reader_Call (R_MatchRegexp field c),
               Cache_Put a PatternTypeRegexp
                 (regexp_key (reader_uuid s) (go_string field) (Regexp_String (FSTSyntax c))) pl]
        \<and> (fits w a PatternTypeRegexp pl \<and> unpurged w a (reader_uuid s)
             \<and> Regexp_String (FSTSyntax c') = Regexp_String (FSTSyntax c)
             \<longrightarrow> fst (MatchRegexp s field c' (snd (MatchRegexp s field c w))) = (pl, None)))
   \<and> (caching_searches s = Some b
      \<and> peek w b PatternTypeSearch (search_key (reader_uuid s) (Query_String query)) = Some pl
      \<longrightarrow> fst (Search s query searcher w) = (pl, None)
        \<and> new_effects w (snd (Search s query searcher w))
            = [Cache_Get b PatternTypeSearch (search_key (reader_uuid s) (Query_String query))])
   \<and> (caching_searches s = Some b
      \<and> peek w b PatternTypeSearch (search_key (reader_uuid s) (Query_String query)) = None
      \<and> searcher s (emit (Cache_Get b PatternTypeSearch
            (search_key (reader_uuid s) (Query_String query))) w) = ((pl, None), w2)
      \<longrightarrow> Search s query searcher w
            = ((pl, None),
               heap_put b PatternTypeSearch (search_key (reader_uuid s) (Query_String query)) pl w2)
        \<and> (fits w2 b PatternTypeSearch pl \<and> unpurged w2 b (reader_uuid s)
             \<and> Query_String query' = Query_String query
             \<longrightarrow> fst (Search s query' searcher' (snd (Search s query searcher w))) = (pl, None)))"
proof (intro conjI impI)
  let ?k = "regexp_key (reader_uuid s) (go_string field) (Regexp_String (FSTSyntax c))"
  have k: "MatchRegexp_key s field c = ?k"
    by (simp add: MatchRegexp_key_def)
  {
    assume h: "caching_regexp s = Some a \<and> peek w a PatternTypeRegexp ?k = Some pl"
    then have on: "caching_regexp s = Some a" by simp
    from h show "fst (MatchRegexp s field c w) = (pl, None)"
      by (simp add: MatchRegexp_cached [OF on] k read_through_result)
    from h show "new_effects w (snd (MatchRegexp s field c w)) = [Cache_Get a PatternTypeRegexp ?k]"
      by (simp add: MatchRegexp_cached [OF on] k read_through_effects)
  }
  {
    assume h: "caching_regexp s = Some a \<and> peek w a PatternTypeRegexp ?k = None
        \<and> MatchRegexp_u (reader s) field c = (pl, None)"
    then have on: "caching_regexp s = Some a" by simp
    from h show "new_effects w (snd (MatchRegexp s field c w))
        = [Cache_Get a PatternTypeRegexp ?k, Reader_Call (R_MatchRegexp field c),
           Cache_Put a PatternTypeRegexp ?k pl]"
      by (simp add: MatchRegexp_cached [OF on] k read_through_effects)
    assume h2: "fits w a PatternTypeRegexp pl \<and> unpurged w a (reader_uuid s)
        \<and> Regexp_String (FSTSyntax c') = Regexp_String (FSTSyntax c)"
    then have "MatchRegexp_key s field c' = ?k"
      by (simp add: MatchRegexp_key_def)
    moreover have "peek (snd (MatchRegexp s field c w)) a PatternTypeRegexp ?k = Some pl"
      using h h2 by (simp add: MatchRegexp_cached [OF on] k read_through_warm)
    ultimately show "fst (MatchRegexp s field c' (snd (MatchRegexp s field c w))) = (pl, None)"
      by (simp add: MatchRegexp_cached [OF on] read_through_result)
  }
next
  let ?k = "search_key (reader_uuid s) (Query_String query)"
  have k: "Search_key s query = ?k"
    by (simp add: Search_key_def)
  {
    assume h: "caching_searches s = Some b \<and> peek w b PatternTypeSearch ?k = Some pl"
    then have on: "caching_searches s = Some b" by simp
    from h have hit: "Search s query searcher w
        = ((pl, None), snd (heap_get b PatternTypeSearch ?k w))"
      using Search_hit [OF on, of w query pl searcher] by (simp add: k)
    from hit show "fst (Search s query searcher w) = (pl, None)"
      by simp
    from hit show "new_effects w (snd (Search s query searcher w))
        = [Cache_Get b PatternTypeSearch ?k]"
      by (simp add: new_effects_def heap_get_trace)
  }
  {
    assume h: "caching_searches s = Some b \<and> peek w b PatternTypeSearch ?k = None
        \<and> searcher s (emit (Cache_Get b PatternTypeSearch ?k) w) = ((pl, None), w2)"
    then have on: "caching_searches s = Some b" by simp
    from h show stored: "Search s query searcher w
        = ((pl, None), heap_put b PatternTypeSearch ?k pl w2)"
      using Search_miss_ok [OF on, of w query searcher pl w2] by (simp add: k)
    assume h2: "fits w2 b PatternTypeSearch pl \<and> unpurged w2 b (reader_uuid s)
        \<and> Query_String query' = Query_String query"
    then have k': "Search_key s query' = ?k"
      by (simp add: Search_key_def)
    have "peek (snd (Search s query searcher w)) b PatternTypeSearch (Search_key s query') = Some pl"
      using h2 by (simp add: stored k' heap_put_peek_fits)
    then show "fst (Search s query' searcher' (snd (Search s query searcher w))) = (pl, None)"
      using Search_hit [OF on] by simp
  }
qed

text \<open>
  Two compiled expressions with the FST syntax \<open>squa.*\<close> and different automata: the
  second is answered from the slot the first one filled. Two queries with the string
  \<open>color:red\<close>: the second is answered from the slot of the first, and its searcher,
  which would fail, is not run.
\<close>

theorem cache_keys_are_canonical_witness:
  "fst (MatchRegexp example_rts_reader ''shape'' \<lparr>FSTSyntax = syntax_Regexp ''squa.*'', FST = 2\<rparr>
      (snd (MatchRegexp example_rts_reader ''shape''
         \<lparr>FSTSyntax = syntax_Regexp ''squa.*'', FST = 1\<rparr> example_world)))
     = (List [1] 8, None)
   \<and> fst (Search example_rts_reader (Query 1 ''color:red'')
        (\<lambda>s w. ((nil_List, Some (errUnderlying ''not run'')), w))
        (snd (Search example_rts_reader (Query 0 ''color:red'')
           (\<lambda>s w. ((List [1, 2] 16, None), w)) example_world)))
     = (List [1, 2] 16, None)"
proof -
  let ?s = example_rts_reader
  let ?c1 = "\<lparr>FSTSyntax = syntax_Regexp ''squa.*'', FST = 1\<rparr>"
  let ?c2 = "\<lparr>FSTSyntax = syntax_Regexp ''squa.*'', FST = 2\<rparr>"
  let ?found = "\<lambda>(s::readThroughSegmentReader) (w::world). ((List [1, 2] 16, None), w)"
  let ?fail = "\<lambda>(s::readThroughSegmentReader) (w::world).
      ((nil_List, Some (errUnderlying ''not run'')), w)"
  let ?w1 = "emit (Cache_Get 1 PatternTypeSearch
      (search_key (reader_uuid ?s) (Query_String (Query 0 ''color:red'')))) example_world"
  have on: "caching_regexp ?s = Some 0" "caching_searches ?s = Some 1"
    by (simp_all add: caching_regexp_def caching_searches_def example_rts_reader_def
        newReadThroughSegmentReader_def two_caches_def all_enabled_def)
  have cold: "peek example_world a t k = None" for a t k
    by (simp add: peek_def cache_peek_def lru_peek_def example_world_def example_cache_def)
  have answer: "MatchRegexp_u (reader ?s) ''shape'' ?c1 = (List [1] 8, None)"
    by (simp add: example_rts_reader_def newReadThroughSegmentReader_def example_reader_def)
  have fit: "fits example_world 0 PatternTypeRegexp (List [1] 8)"
    "fits ?w1 1 PatternTypeSearch (List [1, 2] 16)"
    by (simp_all add: fits_def example_world_def example_cache_def)
  have fresh: "unpurged example_world 0 (reader_uuid ?s)" "unpurged ?w1 1 (reader_uuid ?s)"
    by (simp_all add: unpurged_def example_world_def example_cache_def)
  have same: "Regexp_String (FSTSyntax ?c2) = Regexp_String (FSTSyntax ?c1)"
    "Query_String (Query 1 ''color:red'') = Query_String (Query 0 ''color:red'')"
    by simp_all
  have run: "?found ?s ?w1 = ((List [1, 2] 16, None), ?w1)"
    by simp
  from cache_keys_are_canonical [of ?s 0 example_world "''shape''" ?c1 "List [1] 8" ?c2]
    on(1) cold answer fit(1) fresh(1) same(1)
  have "fst (MatchRegexp ?s ''shape'' ?c2 (snd (MatchRegexp ?s ''shape'' ?c1 example_world)))
      = (List [1] 8, None)"
    by blast
  moreover
  from cache_keys_are_canonical [where s = ?s and b = 1 and w = example_world
      and query = "Query 0 ''color:red''" and pl = "List [1, 2] 16" and searcher = ?found
      and ?w2.0 = ?w1 and query' = "Query 1 ''color:red''" and searcher' = ?fail]
    on(2) cold run fit(2) fresh(2) same(2)
  have "fst (Search ?s (Query 1 ''color:red'') ?fail
      (snd (Search ?s (Query 0 ''color:red'') ?found example_world))) = (List [1, 2] 16, None)"
    by blast
  ultimately show ?thesis by simp
qed

end
